theory Spec2Isabelle
  imports Complex_Main
begin

section \<open>Data model\<close>

text \<open>
  A value held in one position of a data frame is absent (\<open>None\<close>, \<open>NaN\<close>), a number,
  a text or a boolean.  Floating-point numbers are read as reals and \<open>NaN\<close> as \<open>NA\<close>; every
  comparison of the program is against an integer constant, so no rounding is involved.
  Texts are ASCII strings: the character classes and the case folding below are the ASCII
  ones.
\<close>

datatype cell = NA | Num real | Str string | Bool bool

datatype error = KeyError | TypeError | ValueError | AttributeError

type_synonym row = "string \<Rightarrow> cell"

text \<open>
  A data frame is its ordered list of column names and its rows; a row gives the value of
  every column (whatever it gives for a name that is not a column is never read).
\<close>

record table =
  columns :: "string list"
  rows :: "row list"

text \<open>\<open>df[c] = ...\<close>, computed row by row: replaces the column or appends it.\<close>

definition assign :: "string \<Rightarrow> (row \<Rightarrow> cell) \<Rightarrow> table \<Rightarrow> table" where
  "assign c f df =
     \<lparr>columns = (if c \<in> set (columns df) then columns df else columns df @ [c]),
      rows = map (\<lambda>r. r(c := f r)) (rows df)\<rparr>"

text \<open>\<open>df[cs]\<close> for a list of existing column names.\<close>

definition select_cols :: "string list \<Rightarrow> table \<Rightarrow> table" where
  "select_cols cs df =
     \<lparr>columns = cs, rows = map (\<lambda>r c. if c \<in> set cs then r c else NA) (rows df)\<rparr>"

text \<open>\<open>df.drop(columns=[c])\<close> for an existing column.\<close>

definition drop_col :: "string \<Rightarrow> table \<Rightarrow> table" where
  "drop_col c df = select_cols (filter (\<lambda>d. d \<noteq> c) (columns df)) df"

text \<open>\<open>df[mask]\<close> for a boolean mask computed row by row.\<close>

definition keep_rows :: "(row \<Rightarrow> bool) \<Rightarrow> table \<Rightarrow> table" where
  "keep_rows m df = \<lparr>columns = columns df, rows = filter m (rows df)\<rparr>"

section \<open>Library operations on values\<close>

text \<open>
  \<open>pd.to_numeric(..., errors="coerce")\<close> on one value.  How pandas reads a text as a
  number is the parameter \<open>parse\<close> (\<open>None\<close> where it cannot).
\<close>

definition to_numeric :: "(string \<Rightarrow> real option) \<Rightarrow> cell \<Rightarrow> real option" where
  "to_numeric parse v =
     (case v of NA \<Rightarrow> None | Num x \<Rightarrow> Some x | Str s \<Rightarrow> parse s | Bool b \<Rightarrow> Some (of_bool b))"

text \<open>A value of a float column, and back.\<close>

definition as_float :: "cell \<Rightarrow> real option" where
  "as_float v = (case v of Num x \<Rightarrow> Some x | _ \<Rightarrow> None)"

definition float_cell :: "real option \<Rightarrow> cell" where
  "float_cell a = (case a of None \<Rightarrow> NA | Some x \<Rightarrow> Num x)"

definition fillna :: "real option \<Rightarrow> real option \<Rightarrow> real option" where
  "fillna a b = (case a of None \<Rightarrow> b | Some x \<Rightarrow> Some x)"

definition clip_lower :: "real \<Rightarrow> real option \<Rightarrow> real option" where
  "clip_lower lo a = (case a of None \<Rightarrow> None | Some x \<Rightarrow> Some (max lo x))"

text \<open>\<open>Series.ge(k)\<close> on a float: false on \<open>NaN\<close>.\<close>

definition ge :: "real option \<Rightarrow> real \<Rightarrow> bool" where
  "ge a k = (case a of None \<Rightarrow> False | Some x \<Rightarrow> k \<le> x)"

text \<open>
  \<open>str(v)\<close> and \<open>astype(str)\<close>; how a number is printed is the parameter \<open>str_num\<close>.
  An absent value prints as \<open>nan\<close> (as \<open>None\<close> when it is \<open>None\<close>: no rule of the
  program tells the two texts apart, neither holds a digit or a keyword).
\<close>

definition py_str :: "(real \<Rightarrow> string) \<Rightarrow> cell \<Rightarrow> string" where
  "py_str str_num v =
     (case v of NA \<Rightarrow> ''nan'' | Num x \<Rightarrow> str_num x | Str s \<Rightarrow> s
      | Bool b \<Rightarrow> (if b then ''True'' else ''False''))"

definition is_digit :: "char \<Rightarrow> bool" where
  "is_digit c = (c \<in> set ''0123456789'')"

text \<open>The class \<open>\w\<close>.\<close>

definition is_word :: "char \<Rightarrow> bool" where
  "is_word c =
     (c \<in> set ''abcdefghijklmnopqrstuvwxyzABCDEFGHIJKLMNOPQRSTUVWXYZ0123456789_'')"

definition lower_char :: "char \<Rightarrow> char" where
  "lower_char c =
     (case map_of (zip ''ABCDEFGHIJKLMNOPQRSTUVWXYZ'' ''abcdefghijklmnopqrstuvwxyz'') c of
        Some d \<Rightarrow> d | None \<Rightarrow> c)"

definition lower :: "string \<Rightarrow> string" where
  "lower s = map lower_char s"

text \<open>\<open>contains s p\<close>: the text \<open>p\<close> occurs in \<open>s\<close>.\<close>

fun contains :: "string \<Rightarrow> string \<Rightarrow> bool" where
  "contains [] p = (p = [])"
| "contains (c # cs) p = (take (length p) (c # cs) = p \<or> contains cs p)"

text \<open>
  \<open>Series.str.contains("k1|k2|...", case=False)\<close> on one value of an object column, for
  literal alternatives: a value that is not a text gives \<open>NaN\<close>, here \<open>None\<close>.
\<close>

definition str_contains_nocase :: "string list \<Rightarrow> cell \<Rightarrow> bool option" where
  "str_contains_nocase ks v =
     (case v of Str s \<Rightarrow> Some (list_ex (contains (lower s)) (map lower ks)) | _ \<Rightarrow> None)"

text \<open>
  The \<open>.str\<close> accessor exists on a column of texts only: on a column of a table read by
  \<open>pd.read_csv\<close> that holds no text (and is not empty) it raises \<open>AttributeError\<close>.
\<close>

definition str_accessor_ok :: "string \<Rightarrow> table \<Rightarrow> bool" where
  "str_accessor_ok c df =
     (rows df = [] \<or> list_ex (\<lambda>r. case r c of Str s \<Rightarrow> True | _ \<Rightarrow> False) (rows df))"

section \<open>utils/cleaning.py\<close>

text \<open>\<open>re.search(r"\b(\d{5})\b", s)\<close>: the scan from the left, and its group 1.\<close>

definition cp_here :: "bool \<Rightarrow> string \<Rightarrow> bool" where
  "cp_here prev_word s =
     (\<not> prev_word \<and> 5 \<le> length s \<and> list_all is_digit (take 5 s) \<and>
      (case drop 5 s of [] \<Rightarrow> True | c # _ \<Rightarrow> \<not> is_word c))"

fun cp_scan :: "bool \<Rightarrow> string \<Rightarrow> string option" where
  "cp_scan prev_word [] = None"
| "cp_scan prev_word (c # cs) =
     (if cp_here prev_word (c # cs) then Some (take 5 (c # cs)) else cp_scan (is_word c) cs)"

definition re_search_cp :: "string \<Rightarrow> string option" where
  "re_search_cp s = cp_scan False s"

definition extract_code_postal :: "(real \<Rightarrow> string) \<Rightarrow> cell \<Rightarrow> string option" where
  "extract_code_postal str_num adresse =
     (if adresse = NA then None
      else case re_search_cp (py_str str_num adresse) of
             Some m \<Rightarrow> Some m | None \<Rightarrow> None)"

text \<open>\<open>str.extract(r"^(\d{2})")\<close> on one text.\<close>

definition extract_2_digits :: "string \<Rightarrow> string option" where
  "extract_2_digits s =
     (case s of a # b # _ \<Rightarrow> (if is_digit a \<and> is_digit b then Some [a, b] else None)
      | _ \<Rightarrow> None)"

definition str_cell :: "string option \<Rightarrow> cell" where
  "str_cell a = (case a of None \<Rightarrow> NA | Some s \<Rightarrow> Str s)"

definition add_departement_from_cp_simple ::
    "(real \<Rightarrow> string) \<Rightarrow> table \<Rightarrow> string \<Rightarrow> table" where
  "add_departement_from_cp_simple str_num df cp_col =
     (if cp_col \<in> set (columns df)
      then assign ''departement''
             (\<lambda>r. str_cell (extract_2_digits (py_str str_num (r cp_col)))) df
      else assign ''departement'' (\<lambda>r. NA) df)"

text \<open>The function \<open>_bin\<close> of \<open>clean_irve\<close>.\<close>

definition bin :: "real option \<Rightarrow> string" where
  "bin x =
     (case x of None \<Rightarrow> ''inconnu''
      | Some x \<Rightarrow>
          if x \<le> 7 then ''AC_lente''
          else if x \<le> 22 then ''AC_standard''
          else if x \<le> 49 then ''DC_moyenne''
          else if x \<le> 149 then ''DC_rapide''
          else ''DC_ultra'')"

definition cols :: "string list" where
  "cols =
     [''id_station'', ''id_pdc'', ''nom_station'',
      ''adresse_station'', ''code_postal'', ''nom_commune'',
      ''code_departement'', ''nom_departement'', ''code_region'', ''nom_region'',
      ''latitude'', ''longitude'',
      ''consolidated_longitude'', ''consolidated_latitude'', ''consolidated_lagitude'',
      ''accessibilite'', ''conditions_acces'', ''horaires'', ''reservation'',
      ''modalites_paiement'',
      ''etat_pdc'', ''statut_pdc'', ''date_maj'', ''date_mise_en_service'',
      ''puissance_nominale'', ''type_prise'', ''connecteur'', ''format_recharge'',
      ''type_charge'', ''nb_points_charge'',
      ''operateur'', ''nom_operateur'', ''enseigne'', ''reseau'', ''proprietaire'',
      ''source'', ''last_update'',
      ''code_insee_commune'',
      ''departement'']"

text \<open>Step 1: the useful columns that exist.\<close>

definition keep_present :: "table \<Rightarrow> table" where
  "keep_present df = select_cols (filter (\<lambda>c. c \<in> set (columns df)) cols) df"

text \<open>
  Step 2, one of its three blocks: the column \<open>target\<close> read as a number (all \<open>NaN\<close> when
  there is no such column), its gaps filled from the column \<open>source\<close>, when \<open>source\<close>
  exists.
\<close>

definition fill_from :: "(string \<Rightarrow> real option) \<Rightarrow> string \<Rightarrow> string \<Rightarrow> table \<Rightarrow> table" where
  "fill_from parse target source df =
     (if source \<in> set (columns df)
      then let df1 = assign target
                       (\<lambda>r. if target \<in> set (columns df)
                             then float_cell (to_numeric parse (r target)) else NA) df
           in assign target
                (\<lambda>r. float_cell (fillna (as_float (r target)) (to_numeric parse (r source)))) df1
      else df)"

definition consolidate :: "(string \<Rightarrow> real option) \<Rightarrow> table \<Rightarrow> table" where
  "consolidate parse df =
     fill_from parse ''latitude'' ''consolidated_lagitude''
       (fill_from parse ''latitude'' ''consolidated_latitude''
          (fill_from parse ''longitude'' ''consolidated_longitude'' df))"

text \<open>Step 3: the power as a number, clipped at 0, and its category.\<close>

definition power_columns :: "(string \<Rightarrow> real option) \<Rightarrow> table \<Rightarrow> table" where
  "power_columns parse df =
     (if ''puissance_nominale'' \<in> set (columns df)
      then let df1 = assign ''puissance_kw''
                       (\<lambda>r. float_cell (clip_lower 0 (to_numeric parse (r ''puissance_nominale'')))) df
           in assign ''categorie_puissance'' (\<lambda>r. Str (bin (as_float (r ''puissance_kw'')))) df1
      else df)"

text \<open>Step 4: AC/DC.\<close>

definition ac_dc :: "table \<Rightarrow> error + table" where
  "ac_dc df =
     (if ''connecteur'' \<in> set (columns df)
      then if str_accessor_ok ''connecteur'' df
           then Inr (assign ''is_dc''
                  (\<lambda>r. Bool (case str_contains_nocase [''DC'', ''CCS'', ''Combo'', ''CHAdeMO'']
                                     (r ''connecteur'') of
                                Some b \<Rightarrow> b | None \<Rightarrow> False)) df)
           else Inl AttributeError
      else if ''puissance_kw'' \<in> set (columns df)
      then Inr (assign ''is_dc'' (\<lambda>r. Bool (ge (as_float (r ''puissance_kw'')) 24)) df)
      else Inr df)"

text \<open>Step 5: open at all hours.\<close>

definition access_24_7 :: "(real \<Rightarrow> string) \<Rightarrow> table \<Rightarrow> table" where
  "access_24_7 str_num df =
     (if ''horaires'' \<in> set (columns df)
      then assign ''access_24_7''
             (\<lambda>r. let s = lower (py_str str_num (r ''horaires''))
                   in Bool (contains s ''24/7'' \<or> contains s ''24h'' \<or>
                            contains s ''24 h'' \<or> contains s ''24 heures'')) df
      else assign ''access_24_7'' (\<lambda>r. Bool False) df)"

text \<open>
  Step 6: public or private.  The second keyword is \<open>libre acces\<close> with a grave accent
  on the first e, in UTF-8.
\<close>

definition est_publique :: "(real \<Rightarrow> string) \<Rightarrow> table \<Rightarrow> table" where
  "est_publique str_num df =
     assign ''est_publique''
       (\<lambda>r. let a = (if ''accessibilite'' \<in> set (columns df)
                      then py_str str_num (r ''accessibilite'') else '''');
                 c = (if ''conditions_acces'' \<in> set (columns df)
                      then py_str str_num (r ''conditions_acces'') else '''');
                 txt = lower (a @ '' '' @ c)
             in Bool (list_ex (contains txt)
                        [''public'', ''libre acc'' @ [CHR 0xC3, CHR 0xA8] @ ''s'',
                         ''libre acces''])) df"

text \<open>
  Step 7: the status, the first group of keywords that matches.  The third keyword of the
  first group is \<open>operation\<close> with an acute accent on the e, in UTF-8.
\<close>

definition statut_normalise :: "(real \<Rightarrow> string) \<Rightarrow> table \<Rightarrow> table" where
  "statut_normalise str_num df =
     (let statut_src =
            (if ''etat_pdc'' \<in> set (columns df) then Some ''etat_pdc''
             else if ''statut_pdc'' \<in> set (columns df) then Some ''statut_pdc'' else None)
      in case statut_src of
           None \<Rightarrow> df
         | Some src \<Rightarrow>
             assign ''statut_normalise''
               (\<lambda>r. let s = lower (py_str str_num (r src))
                     in Str (if list_ex (contains s)
                                  [''en service'', ''disponible'',
                                   ''op'' @ [CHR 0xC3, CHR 0xA9] @ ''ration'', ''operation'']
                             then ''en_service''
                             else if list_ex (contains s)
                                  [''hors service'', ''panne'', ''indisponible'']
                             then ''hors_service''
                             else if contains s ''maintenance'' then ''maintenance''
                             else ''inconnu'')) df)"

text \<open>Step 8.\<close>

definition drop_if_present :: "string \<Rightarrow> table \<Rightarrow> table" where
  "drop_if_present c df = (if c \<in> set (columns df) then drop_col c df else df)"

text \<open>Step 9: the key columns in front.\<close>

definition front_cols :: "string list" where
  "front_cols =
     [''id_station'', ''id_pdc'', ''nom_station'',
      ''adresse_station'', ''code_postal'', ''nom_commune'',
      ''code_departement'', ''nom_departement'', ''code_region'', ''nom_region'',
      ''latitude'', ''longitude'',
      ''puissance_kw'', ''categorie_puissance'', ''is_dc'',
      ''access_24_7'', ''est_publique'', ''statut_normalise'',
      ''operateur'', ''enseigne'', ''reseau'',
      ''date_maj'', ''date_mise_en_service'']"

definition reorder :: "table \<Rightarrow> table" where
  "reorder df =
     (let front = filter (\<lambda>c. c \<in> set (columns df)) front_cols
      in select_cols (front @ filter (\<lambda>c. c \<notin> set front) (columns df)) df)"

definition clean_irve ::
    "(string \<Rightarrow> real option) \<Rightarrow> (real \<Rightarrow> string) \<Rightarrow> table \<Rightarrow> error + table" where
  "clean_irve parse str_num df_raw =
     (let df = keep_present df_raw;
          df = consolidate parse df;
          df = power_columns parse df
      in case ac_dc df of
           Inl e \<Rightarrow> Inl e
         | Inr df \<Rightarrow>
             (let df = access_24_7 str_num df;
                  df = est_publique str_num df;
                  df = statut_normalise str_num df;
                  df = drop_if_present ''code_insee_commune'' df;
                  df = reorder df;
                  df = drop_if_present ''consolidated_latitude'' df;
                  df = drop_if_present ''consolidated_longitude'' df
              in Inr df))"

section \<open>Reading a result\<close>

text \<open>
  \<open>df.at[i, c]\<close> on the outcome of an operation that may have raised: the exception
  when it did, \<open>KeyError\<close> when the table has no row \<open>i\<close> or no column \<open>c\<close>.
\<close>

definition cell_at :: "error + table \<Rightarrow> nat \<Rightarrow> string \<Rightarrow> error + cell" where
  "cell_at res i c =
     (case res of Inl e \<Rightarrow> Inl e
      | Inr df \<Rightarrow> if i < length (rows df) \<and> c \<in> set (columns df)
                  then Inr ((rows df ! i) c) else Inl KeyError)"

text \<open>A row from its dictionary; a name the dictionary does not have reads as absent.\<close>

definition row_of :: "(string \<times> cell) list \<Rightarrow> row" where
  "row_of kvs c = (case map_of kvs c of Some v \<Rightarrow> v | None \<Rightarrow> NA)"

text \<open>
  For the examples: a reader of texts that knows the texts \<open>48.85\<close> and \<open>2.35\<close> and
  reads them as pandas does, and a printer of numbers that prints 150 as Python does (the
  examples print no number).
\<close>

definition parse_sample :: "string \<Rightarrow> real option" where
  "parse_sample s = (if s = ''48.85'' then Some 48.85 else if s = ''2.35'' then Some 2.35 else None)"

definition str_num_sample :: "real \<Rightarrow> string" where
  "str_num_sample x = (if x = 150 then ''150.0'' else ''0.0'')"

section \<open>utils/geo.py\<close>

definition geo_extract_code_postal :: "(real \<Rightarrow> string) \<Rightarrow> cell \<Rightarrow> string option" where
  "geo_extract_code_postal str_num adresse =
     (if adresse = NA then None
      else let match = re_search_cp (py_str str_num adresse)
           in case match of Some m \<Rightarrow> Some m | None \<Rightarrow> None)"

section \<open>utils/io.py\<close>

definition LAT_CANDS :: "string list" where
  "LAT_CANDS = [''y_latitude'', ''latitude'', ''lat'', ''ylat'']"

text \<open>
  \<open>re.fullmatch(rf".*{cand}.*", s)\<close> for a candidate without regular-expression
  operators, as the candidates of the module are: \<open>cand\<close> occurs in \<open>s\<close>, and no line
  break stands before or after it (the dot does not match a line break).
\<close>

fun re_fullmatch_loose :: "string \<Rightarrow> string \<Rightarrow> bool" where
  "re_fullmatch_loose cand [] = (cand = [])"
| "re_fullmatch_loose cand (c # cs) =
     ((take (length cand) (c # cs) = cand \<and> CHR 0x0A \<notin> set (drop (length cand) (c # cs)))
      \<or> (c \<noteq> CHR 0x0A \<and> re_fullmatch_loose cand cs))"

text \<open>
  The dictionary \<open>{c.lower(): c for c in df.columns}\<close>, filled in the order of the
  columns: a later column replaces an earlier one under the same key.
\<close>

definition low_dict :: "string list \<Rightarrow> (string \<rightharpoonup> string)" where
  "low_dict cs = fold (\<lambda>c low. low(lower c \<mapsto> c)) cs Map.empty"

text \<open>The first loop of \<open>_first_col\<close>, over the candidates.\<close>

fun exact_loop :: "(string \<rightharpoonup> string) \<Rightarrow> string list \<Rightarrow> string option" where
  "exact_loop low [] = None"
| "exact_loop low (cand # candidates) =
     (case low cand of Some c \<Rightarrow> Some c | None \<Rightarrow> exact_loop low candidates)"

text \<open>The second loop, over the columns.\<close>

fun loose_loop :: "string list \<Rightarrow> string list \<Rightarrow> string option" where
  "loose_loop [] candidates = None"
| "loose_loop (c # cs) candidates =
     (if list_ex (\<lambda>cand. re_fullmatch_loose cand (lower c)) candidates then Some c
      else loose_loop cs candidates)"

text \<open>\<open>_first_col\<close>, on the column names of the data frame.\<close>

definition first_col :: "string list \<Rightarrow> string list \<Rightarrow> string option" where
  "first_col df_columns candidates =
     (let low = low_dict df_columns
      in case exact_loop low candidates of
           Some c \<Rightarrow> Some c
         | None \<Rightarrow> loose_loop df_columns candidates)"

section \<open>sections/data\_processing.py\<close>

text \<open>
  \<open>render\<close>, sections 2 and 3 of the page: the postal code from the address (a missing
  address column is a \<open>KeyError\<close>), the department, the cleaning.
\<close>

definition render_cleaning ::
    "(string \<Rightarrow> real option) \<Rightarrow> (real \<Rightarrow> string) \<Rightarrow> table \<Rightarrow> error + table" where
  "render_cleaning parse str_num df_raw =
     (if ''adresse_station'' \<notin> set (columns df_raw) then Inl KeyError
      else let df_raw = assign ''code_postal''
                          (\<lambda>r. str_cell (geo_extract_code_postal str_num (r ''adresse_station'')))
                          df_raw;
               df_raw = add_departement_from_cp_simple str_num df_raw ''code_postal''
           in clean_irve parse str_num df_raw)"

text \<open>
  The number a value of a numeric column stands for, and the comparisons of a column with
  a constant, value by value: a comparison with \<open>NaN\<close> is false.
\<close>

definition number_of :: "cell \<Rightarrow> real option" where
  "number_of v =
     (case v of NA \<Rightarrow> None | Num x \<Rightarrow> Some x | Bool b \<Rightarrow> Some (of_bool b) | Str s \<Rightarrow> None)"

definition gt :: "cell \<Rightarrow> real \<Rightarrow> bool" where
  "gt v k = (case number_of v of None \<Rightarrow> False | Some x \<Rightarrow> k < x)"

definition le :: "cell \<Rightarrow> real \<Rightarrow> bool" where
  "le v k = (case number_of v of None \<Rightarrow> False | Some x \<Rightarrow> x \<le> k)"

definition between :: "cell \<Rightarrow> real \<Rightarrow> real \<Rightarrow> bool" where
  "between v left right =
     (case number_of v of None \<Rightarrow> False | Some x \<Rightarrow> left \<le> x \<and> x \<le> right)"

text \<open>Comparing a column that holds a text with a number raises \<open>TypeError\<close>.\<close>

definition has_text :: "string \<Rightarrow> table \<Rightarrow> bool" where
  "has_text c df = list_ex (\<lambda>r. case r c of Str s \<Rightarrow> True | _ \<Rightarrow> False) (rows df)"

text \<open>
  \<open>render\<close>, a) the power: the number of values above 400 that the page announces, and
  the table that is kept.  Without the column nothing is announced or removed.
\<close>

definition power_outliers :: "table \<Rightarrow> error + nat option \<times> table" where
  "power_outliers df_clean =
     (if ''puissance_kw'' \<in> set (columns df_clean)
      then if has_text ''puissance_kw'' df_clean then Inl TypeError
           else let nb_outliers = length (filter (\<lambda>r. gt (r ''puissance_kw'') 400) (rows df_clean));
                    df_clean = keep_rows (\<lambda>r. le (r ''puissance_kw'') 400) df_clean
                in Inr (Some nb_outliers, df_clean)
      else Inr (None, df_clean))"

text \<open>
  \<open>render\<close>, b) the coordinates: the number of rows outside the mask that the page
  announces, and the table that is kept.  Before the rows are removed the page draws
  \<open>min(5000, len(df_clean))\<close> points sampled without replacement among the rows that have
  both coordinates, which raises \<open>ValueError\<close> when there are fewer such rows.
\<close>

definition geo_outliers :: "table \<Rightarrow> error + nat option \<times> table" where
  "geo_outliers df_clean =
     (if ''latitude'' \<in> set (columns df_clean) \<and> ''longitude'' \<in> set (columns df_clean)
      then if has_text ''latitude'' df_clean \<or> has_text ''longitude'' df_clean
           then Inl TypeError
           else let mask_geo = (\<lambda>r. between (r ''latitude'') (- 22) 52 \<and>
                                     between (r ''longitude'') (- 63) 55);
                    nb_geo_out = length (filter (\<lambda>r. \<not> mask_geo r) (rows df_clean));
                    dropna = filter (\<lambda>r. r ''latitude'' \<noteq> NA \<and> r ''longitude'' \<noteq> NA)
                               (rows df_clean)
                in if length dropna < min 5000 (length (rows df_clean)) then Inl ValueError
                   else Inr (Some nb_geo_out, keep_rows mask_geo df_clean)
      else Inr (None, df_clean))"

text \<open>
  \<open>render\<close>, section 8: saving.  What the file system does is given: whether creating the
  directory, writing each form and reading each size raises, and with which message.  The
  result is whether \<open>render\<close> returns, and what it did in order: the writes it attempted
  and the messages it showed.
\<close>

datatype form = CSV | Parquet

record disk =
  makedirs :: "string option"
  to_file :: "form \<Rightarrow> string option"
  getsize :: "form \<Rightarrow> string + real"

datatype event =
    Write form
  | Success_csv_saved
  | Info_csv_size real
  | Error_save string
  | Ready

datatype outcome = Returned | Raised string

definition save :: "disk \<Rightarrow> outcome \<times> event list" where
  "save d =
     (case makedirs d of
        Some e \<Rightarrow> (Raised e, [])
      | None \<Rightarrow>
          (Returned,
           (case to_file d CSV of
              Some e \<Rightarrow> [Write CSV, Error_save e]
            | None \<Rightarrow>
                [Write CSV, Success_csv_saved] @
                (case to_file d Parquet of
                   Some e \<Rightarrow> [Write Parquet, Error_save e]
                 | None \<Rightarrow>
                     Write Parquet #
                     (case getsize d CSV of
                        Inl e \<Rightarrow> [Error_save e]
                      | Inr csv_size \<Rightarrow>
                          (case getsize d Parquet of
                             Inl e \<Rightarrow> [Error_save e]
                           | Inr parquet_size \<Rightarrow> [Info_csv_size (csv_size / 1000000)]))))
           @ [Ready]))"

section \<open>The claims as the specification words them\<close>

text \<open>
  The resolver of the specification: an exact match, the first in the order of the
  columns; otherwise a loose match, chosen in the order of the candidates; otherwise
  nothing.
\<close>

definition spec_resolve :: "string list \<Rightarrow> string list \<Rightarrow> string option" where
  "spec_resolve df_columns candidates =
     (case find (\<lambda>c. lower c \<in> set (map lower candidates)) df_columns of
        Some c \<Rightarrow> Some c
      | None \<Rightarrow>
          (case find (\<lambda>cand. list_ex (\<lambda>c. re_fullmatch_loose (lower cand) (lower c)) df_columns)
                  candidates of
             Some cand \<Rightarrow> find (\<lambda>c. re_fullmatch_loose (lower cand) (lower c)) df_columns
           | None \<Rightarrow> None))"

text \<open>
  A standalone token of five digits at position \<open>i\<close> of a text: five digits, with a word
  boundary before and after.  The flag tells whether a word character stands before the
  text.
\<close>

definition token_after :: "bool \<Rightarrow> string \<Rightarrow> nat \<Rightarrow> bool" where
  "token_after prev_word s i =
     (i + 5 \<le> length s \<and> list_all is_digit (take 5 (drop i s)) \<and>
      (if i = 0 then \<not> prev_word else \<not> is_word (s ! (i - 1))) \<and>
      (if i + 5 = length s then True else \<not> is_word (s ! (i + 5))))"

definition token_at :: "string \<Rightarrow> nat \<Rightarrow> bool" where
  "token_at s i = token_after False s i"

text \<open>
  A row that the geographic rule is to keep: both coordinates are there and lie in the box.
\<close>

definition in_box :: "row \<Rightarrow> bool" where
  "in_box r =
     (case (number_of (r ''latitude''), number_of (r ''longitude'')) of
        (Some x, Some y) \<Rightarrow> - 22 \<le> x \<and> x \<le> 52 \<and> - 63 \<le> y \<and> y \<le> 55
      | _ \<Rightarrow> False)"

text \<open>A message that reports a failed save.\<close>

definition is_error :: "event \<Rightarrow> bool" where
  "is_error ev = (case ev of Error_save e \<Rightarrow> True | _ \<Rightarrow> False)"

text \<open>
  The first value that reads as a number among the columns \<open>cs\<close> of a row, tried in
  order; \<open>None\<close> when none does.
\<close>

fun first_parsed :: "(string \<Rightarrow> real option) \<Rightarrow> row \<Rightarrow> string list \<Rightarrow> real option" where
  "first_parsed parse r [] = None"
| "first_parsed parse r (c # cs) =
     (case to_numeric parse (r c) of Some x \<Rightarrow> Some x | None \<Rightarrow> first_parsed parse r cs)"

section \<open>Example tables\<close>

definition connector_table :: table where
  "connector_table =
     \<lparr>columns = [''connecteur'', ''puissance_nominale''],
      rows = [row_of [(''connecteur'', Str ''Combo CCS''), (''puissance_nominale'', Num 50)],
              row_of [(''connecteur'', NA), (''puissance_nominale'', Num 150)]]\<rparr>"

definition coords_table :: table where
  "coords_table =
     \<lparr>columns = [''latitude'', ''longitude'', ''consolidated_longitude'',
                 ''consolidated_latitude'', ''consolidated_lagitude''],
      rows = [row_of [(''latitude'', NA), (''longitude'', Str ''2.35''),
                      (''consolidated_longitude'', Num 9),
                      (''consolidated_latitude'', Str ''nord''),
                      (''consolidated_lagitude'', Str ''48.85'')]]\<rparr>"

definition raw_latitude_table :: table where
  "raw_latitude_table =
     \<lparr>columns = [''latitude''], rows = [row_of [(''latitude'', Str ''nord'')]]\<rparr>"

definition paris_row :: row where
  "paris_row = row_of [(''latitude'', Num 48.85), (''longitude'', Num 2.35)]"

definition geo_table :: table where
  "geo_table =
     \<lparr>columns = [''latitude'', ''longitude''],
      rows = [paris_row, row_of [(''latitude'', Num 85), (''longitude'', Num 2.35)]]\<rparr>"

definition no_latitude_row :: row where
  "no_latitude_row = row_of [(''latitude'', NA), (''longitude'', Num 2.35)]"

definition geo_na_table :: table where
  "geo_na_table =
     \<lparr>columns = [''latitude'', ''longitude''],
      rows = replicate 5000 paris_row @ [no_latitude_row]\<rparr>"

definition power_table :: table where
  "power_table =
     \<lparr>columns = [''puissance_kw''],
      rows = [row_of [(''puissance_kw'', NA)], row_of [(''puissance_kw'', Num 500)],
              row_of [(''puissance_kw'', Num 50)]]\<rparr>"

definition raw_power_table :: table where
  "raw_power_table =
     \<lparr>columns = [''puissance_nominale''],
      rows = [row_of [(''puissance_nominale'', Num (- 5))],
              row_of [(''puissance_nominale'', Num 150)]]\<rparr>"

definition scenario_table :: table where
  "scenario_table =
     \<lparr>columns = [''adresse_station'', ''connecteur'', ''puissance_nominale''],
      rows = [row_of [(''adresse_station'', Str ''12 Rue de Paris, 75010 Paris''),
                      (''connecteur'', Str ''CCS''),
                      (''puissance_nominale'', Num 150)]]\<rparr>"

text \<open>Two disks: on one the first write fails, on the other the second.\<close>

definition csv_fails :: disk where
  "csv_fails =
     \<lparr>makedirs = None,
      to_file = (\<lambda>f. if f = CSV then Some ''No space left on device'' else None),
      getsize = (\<lambda>f. Inr 1)\<rparr>"

definition parquet_fails :: disk where
  "parquet_fails =
     \<lparr>makedirs = None,
      to_file = (\<lambda>f. if f = Parquet then Some ''No space left on device'' else None),
      getsize = (\<lambda>f. Inr 1)\<rparr>"

section \<open>How each step of the cleaning acts on a row\<close>


lemma as_float_float_cell [simp]: "as_float (float_cell a) = a"
  by (simp add: as_float_def float_cell_def split: option.splits)

lemma as_float_NA [simp]: "as_float NA = None"
  by (simp add: as_float_def)

lemma columns_assign [simp]: "set (columns (assign c f df)) = insert c (set (columns df))"
  by (auto simp: assign_def)

lemma length_assign [simp]: "length (rows (assign c f df)) = length (rows df)"
  by (simp add: assign_def)

lemma nth_assign [simp]:
  "i < length (rows df) \<Longrightarrow>
   (rows (assign c f df) ! i) d = (if d = c then f (rows df ! i) else (rows df ! i) d)"
  by (simp add: assign_def)

lemma columns_select_cols [simp]: "columns (select_cols cs df) = cs"
  by (simp add: select_cols_def)

lemma length_select_cols [simp]: "length (rows (select_cols cs df)) = length (rows df)"
  by (simp add: select_cols_def)

lemma nth_select_cols [simp]:
  "i < length (rows df) \<Longrightarrow>
   (rows (select_cols cs df) ! i) d = (if d \<in> set cs then (rows df ! i) d else NA)"
  by (simp add: select_cols_def)

lemma columns_drop_if_present [simp]:
  "set (columns (drop_if_present c df)) = set (columns df) - {c}"
  by (auto simp: drop_if_present_def drop_col_def)

lemma length_drop_if_present [simp]:
  "length (rows (drop_if_present c df)) = length (rows df)"
  by (simp add: drop_if_present_def drop_col_def)

lemma nth_drop_if_present [simp]:
  "i < length (rows df) \<Longrightarrow> d \<in> set (columns df) \<Longrightarrow> d \<noteq> c \<Longrightarrow>
   (rows (drop_if_present c df) ! i) d = (rows df ! i) d"
  by (simp add: drop_if_present_def drop_col_def)

lemma columns_reorder [simp]: "set (columns (reorder df)) = set (columns df)"
  by (auto simp: reorder_def Let_def)

lemma length_reorder [simp]: "length (rows (reorder df)) = length (rows df)"
  by (simp add: reorder_def Let_def)

lemma nth_reorder [simp]:
  "i < length (rows df) \<Longrightarrow> d \<in> set (columns df) \<Longrightarrow>
   (rows (reorder df) ! i) d = (rows df ! i) d"
  by (auto simp: reorder_def Let_def)

lemma columns_keep_present [simp]:
  "set (columns (keep_present df)) = set (columns df) \<inter> set cols"
  by (auto simp: keep_present_def)

lemma length_keep_present [simp]: "length (rows (keep_present df)) = length (rows df)"
  by (simp add: keep_present_def)

lemma nth_keep_present [simp]:
  "i < length (rows df) \<Longrightarrow> d \<in> set (columns df) \<Longrightarrow> d \<in> set cols \<Longrightarrow>
   (rows (keep_present df) ! i) d = (rows df ! i) d"
  by (simp add: keep_present_def)

lemma columns_fill_from [simp]:
  "set (columns (fill_from parse target source df)) =
   (if source \<in> set (columns df) then insert target (set (columns df)) else set (columns df))"
  by (simp add: fill_from_def Let_def)

lemma length_fill_from [simp]:
  "length (rows (fill_from parse target source df)) = length (rows df)"
  by (simp add: fill_from_def Let_def)

lemma nth_fill_from:
  "i < length (rows df) \<Longrightarrow> source \<noteq> target \<Longrightarrow>
   (rows (fill_from parse target source df) ! i) d =
   (if d = target \<and> source \<in> set (columns df)
    then float_cell (fillna (if target \<in> set (columns df)
                             then to_numeric parse ((rows df ! i) target) else None)
                            (to_numeric parse ((rows df ! i) source)))
    else (rows df ! i) d)"
  by (simp add: fill_from_def Let_def)

lemma columns_consolidate [simp]:
  "set (columns (consolidate parse df)) =
   set (columns df) \<union>
   (if ''consolidated_longitude'' \<in> set (columns df) then {''longitude''} else {}) \<union>
   (if ''consolidated_latitude'' \<in> set (columns df) \<or>
       ''consolidated_lagitude'' \<in> set (columns df) then {''latitude''} else {})"
  by (auto simp: consolidate_def)

lemma length_consolidate [simp]: "length (rows (consolidate parse df)) = length (rows df)"
  by (simp add: consolidate_def)

lemma nth_consolidate_other [simp]:
  "i < length (rows df) \<Longrightarrow> c \<noteq> ''latitude'' \<Longrightarrow> c \<noteq> ''longitude'' \<Longrightarrow>
   (rows (consolidate parse df) ! i) c = (rows df ! i) c"
  by (simp add: consolidate_def nth_fill_from)

lemma columns_power_columns [simp]:
  "set (columns (power_columns parse df)) =
   (if ''puissance_nominale'' \<in> set (columns df)
    then insert ''puissance_kw'' (insert ''categorie_puissance'' (set (columns df)))
    else set (columns df))"
  by (auto simp: power_columns_def Let_def)

lemma length_power_columns [simp]:
  "length (rows (power_columns parse df)) = length (rows df)"
  by (simp add: power_columns_def Let_def)

lemma nth_power_columns:
  "i < length (rows df) \<Longrightarrow>
   (rows (power_columns parse df) ! i) d =
   (if ''puissance_nominale'' \<in> set (columns df) \<and> d = ''puissance_kw''
    then float_cell (clip_lower 0 (to_numeric parse ((rows df ! i) ''puissance_nominale'')))
    else if ''puissance_nominale'' \<in> set (columns df) \<and> d = ''categorie_puissance''
    then Str (bin (clip_lower 0 (to_numeric parse ((rows df ! i) ''puissance_nominale''))))
    else (rows df ! i) d)"
  by (simp add: power_columns_def Let_def)

lemma columns_ac_dc:
  "ac_dc df = Inr df' \<Longrightarrow>
   set (columns df') =
   (if ''connecteur'' \<in> set (columns df) \<or> ''puissance_kw'' \<in> set (columns df)
    then insert ''is_dc'' (set (columns df)) else set (columns df))"
  by (auto simp: ac_dc_def split: if_splits)

lemma length_ac_dc: "ac_dc df = Inr df' \<Longrightarrow> length (rows df') = length (rows df)"
  by (auto simp: ac_dc_def split: if_splits)

lemma nth_ac_dc:
  "ac_dc df = Inr df' \<Longrightarrow> i < length (rows df) \<Longrightarrow> d \<noteq> ''is_dc'' \<Longrightarrow>
   (rows df' ! i) d = (rows df ! i) d"
  by (auto simp: ac_dc_def split: if_splits)

lemma columns_access_24_7 [simp]:
  "set (columns (access_24_7 sn df)) = insert ''access_24_7'' (set (columns df))"
  by (simp add: access_24_7_def)

lemma length_access_24_7 [simp]: "length (rows (access_24_7 sn df)) = length (rows df)"
  by (simp add: access_24_7_def)

lemma nth_access_24_7 [simp]:
  "i < length (rows df) \<Longrightarrow> d \<noteq> ''access_24_7'' \<Longrightarrow>
   (rows (access_24_7 sn df) ! i) d = (rows df ! i) d"
  by (simp add: access_24_7_def)

lemma columns_est_publique [simp]:
  "set (columns (est_publique sn df)) = insert ''est_publique'' (set (columns df))"
  by (simp add: est_publique_def)

lemma length_est_publique [simp]: "length (rows (est_publique sn df)) = length (rows df)"
  by (simp add: est_publique_def)

lemma nth_est_publique [simp]:
  "i < length (rows df) \<Longrightarrow> d \<noteq> ''est_publique'' \<Longrightarrow>
   (rows (est_publique sn df) ! i) d = (rows df ! i) d"
  by (simp add: est_publique_def)

lemma columns_statut_normalise [simp]:
  "set (columns (statut_normalise sn df)) =
   (if ''etat_pdc'' \<in> set (columns df) \<or> ''statut_pdc'' \<in> set (columns df)
    then insert ''statut_normalise'' (set (columns df)) else set (columns df))"
  by (simp add: statut_normalise_def)

lemma length_statut_normalise [simp]:
  "length (rows (statut_normalise sn df)) = length (rows df)"
  by (simp add: statut_normalise_def)

lemma nth_statut_normalise [simp]:
  "i < length (rows df) \<Longrightarrow> d \<noteq> ''statut_normalise'' \<Longrightarrow>
   (rows (statut_normalise sn df) ! i) d = (rows df ! i) d"
  by (simp add: statut_normalise_def)

lemma clean_irve_Inr:
  assumes "clean_irve parse sn df = Inr df'"
  obtains d where
    "ac_dc (power_columns parse (consolidate parse (keep_present df))) = Inr d"
    "df' = drop_if_present ''consolidated_longitude''
             (drop_if_present ''consolidated_latitude'' (reorder
               (drop_if_present ''code_insee_commune''
                 (statut_normalise sn (est_publique sn (access_24_7 sn d))))))"
  using assms by (auto simp: clean_irve_def Let_def split: sum.splits)

lemma length_clean_irve:
  assumes "clean_irve parse sn df = Inr df'"
  shows "length (rows df') = length (rows df)"
proof -
  from assms obtain d where d: "ac_dc (power_columns parse (consolidate parse (keep_present df))) = Inr d"
    and df': "df' = drop_if_present ''consolidated_longitude''
             (drop_if_present ''consolidated_latitude'' (reorder
               (drop_if_present ''code_insee_commune''
                 (statut_normalise sn (est_publique sn (access_24_7 sn d))))))"
    by (rule clean_irve_Inr)
  from length_ac_dc [OF d] show ?thesis by (simp add: df')
qed

lemma nth_after_ac_dc:
  "i < length (rows d) \<Longrightarrow> c \<in> set (columns d) \<Longrightarrow>
   c \<notin> {''access_24_7'', ''est_publique'', ''statut_normalise'', ''code_insee_commune'',
         ''consolidated_latitude'', ''consolidated_longitude''} \<Longrightarrow>
   (rows (drop_if_present ''consolidated_longitude''
             (drop_if_present ''consolidated_latitude'' (reorder
               (drop_if_present ''code_insee_commune''
                 (statut_normalise sn (est_publique sn (access_24_7 sn d))))))) ! i) c
   = (rows d ! i) c"
  by simp


lemma str_accessor_ok_cong:
  assumes "length (rows df') = length (rows df)"
    and "\<And>i. i < length (rows df) \<Longrightarrow> (rows df' ! i) c = (rows df ! i) c"
  shows "str_accessor_ok c df' = str_accessor_ok c df"
proof -
  have "list_ex (\<lambda>r. case r c of Str s \<Rightarrow> True | _ \<Rightarrow> False) (rows df') =
        list_ex (\<lambda>r. case r c of Str s \<Rightarrow> True | _ \<Rightarrow> False) (rows df)"
    unfolding list_ex_iff in_set_conv_nth Bex_def using assms by auto
  moreover have "(rows df' = []) = (rows df = [])"
    using assms(1) by (metis length_0_conv)
  ultimately show ?thesis by (simp add: str_accessor_ok_def)
qed

lemma in_cols [simp]:
  "''latitude'' \<in> set cols" "''longitude'' \<in> set cols"
  "''consolidated_latitude'' \<in> set cols" "''consolidated_lagitude'' \<in> set cols"
  "''consolidated_longitude'' \<in> set cols" "''puissance_nominale'' \<in> set cols"
  "''connecteur'' \<in> set cols" "''code_postal'' \<in> set cols" "''departement'' \<in> set cols"
  "''puissance_kw'' \<notin> set cols" "''categorie_puissance'' \<notin> set cols" "''is_dc'' \<notin> set cols"
  by (simp_all add: cols_def)

lemma length_before: "length (rows (power_columns parse (consolidate parse (keep_present df)))) = length (rows df)"
  by simp

lemma connecteur_before:
  "(''connecteur'' \<in> set (columns (power_columns parse (consolidate parse (keep_present df))))) =
   (''connecteur'' \<in> set (columns df))"
  by simp

lemma puissance_kw_before:
  "(''puissance_kw'' \<in> set (columns (power_columns parse (consolidate parse (keep_present df))))) =
   (''puissance_nominale'' \<in> set (columns df))"
  by simp

lemma nth_connecteur_before:
  "i < length (rows df) \<Longrightarrow> ''connecteur'' \<in> set (columns df) \<Longrightarrow>
   (rows (power_columns parse (consolidate parse (keep_present df))) ! i) ''connecteur'' =
   (rows df ! i) ''connecteur''"
  by (simp add: nth_power_columns)

lemma nth_puissance_kw_before:
  "i < length (rows df) \<Longrightarrow> ''puissance_nominale'' \<in> set (columns df) \<Longrightarrow>
   (rows (power_columns parse (consolidate parse (keep_present df))) ! i) ''puissance_kw'' =
   float_cell (clip_lower 0 (to_numeric parse ((rows df ! i) ''puissance_nominale'')))"
  by (simp add: nth_power_columns)

lemma clean_irve_returns:
  "(\<exists>df'. clean_irve parse sn df = Inr df') =
   (''connecteur'' \<in> set (columns df) \<longrightarrow> str_accessor_ok ''connecteur'' df)"
proof -
  let ?d = "power_columns parse (consolidate parse (keep_present df))"
  have "(\<exists>df'. clean_irve parse sn df = Inr df') = (\<exists>d. ac_dc ?d = Inr d)"
    by (auto simp: clean_irve_def Let_def split: sum.splits)
  also have "\<dots> = (''connecteur'' \<in> set (columns ?d) \<longrightarrow> str_accessor_ok ''connecteur'' ?d)"
    by (auto simp: ac_dc_def)
  also have "\<dots> = (''connecteur'' \<in> set (columns df) \<longrightarrow> str_accessor_ok ''connecteur'' df)"
  proof (cases "''connecteur'' \<in> set (columns df)")
    case True
    have "str_accessor_ok ''connecteur'' ?d = str_accessor_ok ''connecteur'' df"
      using True by (intro str_accessor_ok_cong) (simp_all add: nth_power_columns)
    with True show ?thesis by simp
  next
    case False
    then show ?thesis by simp
  qed
  finally show ?thesis .
qed


lemma contains_iff: "contains s p \<longleftrightarrow> (\<exists>u v. s = u @ p @ v)"
proof (induction s)
  case Nil
  then show ?case by auto
next
  case (Cons c cs)
  have "(take (length p) (c # cs) = p) \<longleftrightarrow> (\<exists>v. c # cs = p @ v)"
    by (metis append_eq_conv_conj)
  moreover have "(\<exists>u v. c # cs = u @ p @ v) \<longleftrightarrow> (\<exists>v. c # cs = p @ v) \<or> (\<exists>u v. cs = u @ p @ v)"
  proof
    assume "\<exists>u v. c # cs = u @ p @ v"
    then obtain u v where uv: "c # cs = u @ p @ v" by blast
    show "(\<exists>v. c # cs = p @ v) \<or> (\<exists>u v. cs = u @ p @ v)"
    proof (cases u)
      case Nil
      with uv show ?thesis by auto
    next
      case (Cons a u')
      with uv have "cs = u' @ p @ v" by simp
      then show ?thesis by blast
    qed
  next
    assume "(\<exists>v. c # cs = p @ v) \<or> (\<exists>u v. cs = u @ p @ v)"
    then show "\<exists>u v. c # cs = u @ p @ v"
    proof
      assume "\<exists>v. c # cs = p @ v"
      then obtain v where "c # cs = [] @ p @ v" by auto
      then show ?thesis by blast
    next
      assume "\<exists>u v. cs = u @ p @ v"
      then obtain u v where "c # cs = (c # u) @ p @ v" by auto
      then show ?thesis by blast
    qed
  qed
  ultimately show ?case using Cons.IH by simp
qed

lemma to_numeric_float_cell [simp]: "to_numeric parse (float_cell a) = a"
  by (simp add: to_numeric_def float_cell_def split: option.splits)

lemma cell_at_clean_irve:
  assumes res: "clean_irve parse sn df = Inr df'"
    and c: "c \<notin> {''is_dc'', ''access_24_7'', ''est_publique'', ''statut_normalise'',
              ''code_insee_commune'', ''consolidated_latitude'', ''consolidated_longitude''}"
  shows "cell_at (Inr df') i c =
         cell_at (Inr (power_columns parse (consolidate parse (keep_present df)))) i c"
proof -
  let ?d0 = "power_columns parse (consolidate parse (keep_present df))"
  from res obtain d where d: "ac_dc ?d0 = Inr d"
    and df': "df' = drop_if_present ''consolidated_longitude''
             (drop_if_present ''consolidated_latitude'' (reorder
               (drop_if_present ''code_insee_commune''
                 (statut_normalise sn (est_publique sn (access_24_7 sn d))))))"
    by (rule clean_irve_Inr)
  have len: "length (rows d) = length (rows ?d0)"
    by (rule length_ac_dc [OF d])
  have len': "length (rows df') = length (rows d)"
    by (simp add: df')
  have col: "(c \<in> set (columns d)) = (c \<in> set (columns ?d0))"
    using columns_ac_dc [OF d] c by (auto split: if_splits)
  have col': "(c \<in> set (columns df')) = (c \<in> set (columns d))"
    using c by (simp add: df')
  show ?thesis
  proof (cases "i < length (rows d) \<and> c \<in> set (columns d)")
    case True
    then have "(rows df' ! i) c = (rows d ! i) c"
      unfolding df' using c by (intro nth_after_ac_dc) simp_all
    also have "\<dots> = (rows ?d0 ! i) c"
      using True c len by (intro nth_ac_dc [OF d]) simp_all
    finally show ?thesis
      using True col col' len len' by (simp add: cell_at_def)
  next
    case False
    then show ?thesis
      using col col' len len' by (auto simp add: cell_at_def)
  qed
qed

lemma cell_at_clean_irve_is_dc:
  assumes i: "i < length (rows df)"
    and ok: "''connecteur'' \<in> set (columns df) \<longrightarrow> str_accessor_ok ''connecteur'' df"
  shows "cell_at (clean_irve parse sn df) i ''is_dc'' =
         (if ''connecteur'' \<in> set (columns df)
          then Inr (Bool (case str_contains_nocase [''DC'', ''CCS'', ''Combo'', ''CHAdeMO'']
                                 ((rows df ! i) ''connecteur'') of
                            Some b \<Rightarrow> b | None \<Rightarrow> False))
          else if ''puissance_nominale'' \<in> set (columns df)
          then Inr (Bool (ge (clip_lower 0 (to_numeric parse ((rows df ! i) ''puissance_nominale''))) 24))
          else Inl KeyError)"
proof -
  let ?d0 = "power_columns parse (consolidate parse (keep_present df))"
  from ok obtain df' where res: "clean_irve parse sn df = Inr df'"
    using clean_irve_returns [of parse sn df] by blast
  from res obtain d where d: "ac_dc ?d0 = Inr d"
    and df': "df' = drop_if_present ''consolidated_longitude''
             (drop_if_present ''consolidated_latitude'' (reorder
               (drop_if_present ''code_insee_commune''
                 (statut_normalise sn (est_publique sn (access_24_7 sn d))))))"
    by (rule clean_irve_Inr)
  have len: "length (rows d) = length (rows df)"
    using length_ac_dc [OF d] by simp
  have len': "length (rows df') = length (rows d)"
    by (simp add: df')
  have col': "(''is_dc'' \<in> set (columns df')) = (''is_dc'' \<in> set (columns d))"
    by (simp add: df')
  have col: "(''is_dc'' \<in> set (columns d)) =
             (''connecteur'' \<in> set (columns df) \<or> ''puissance_nominale'' \<in> set (columns df))"
    using columns_ac_dc [OF d] by (auto split: if_splits)
  have fin: "''is_dc'' \<in> set (columns d) \<Longrightarrow> (rows df' ! i) ''is_dc'' = (rows d ! i) ''is_dc''"
    unfolding df' using i len by (intro nth_after_ac_dc) simp_all
  have val: "(rows d ! i) ''is_dc'' =
     (if ''connecteur'' \<in> set (columns df)
      then Bool (case str_contains_nocase [''DC'', ''CCS'', ''Combo'', ''CHAdeMO'']
                                 ((rows df ! i) ''connecteur'') of
                            Some b \<Rightarrow> b | None \<Rightarrow> False)
      else Bool (ge (clip_lower 0 (to_numeric parse ((rows df ! i) ''puissance_nominale''))) 24))"
    if "''connecteur'' \<in> set (columns df) \<or> ''puissance_nominale'' \<in> set (columns df)"
    using d that i by (auto simp: ac_dc_def nth_power_columns split: if_splits)
  show ?thesis
    using col col' fin val i len len' by (auto simp: res cell_at_def)
qed


lemma clean_irve_raises: "clean_irve parse sn df = Inl e \<Longrightarrow> e = AttributeError"
  by (auto simp: clean_irve_def Let_def ac_dc_def split: sum.splits if_splits)

lemma lower_keywords:
  "lower ''DC'' = ''dc''" "lower ''CCS'' = ''ccs''" "lower ''Combo'' = ''combo''"
  "lower ''CHAdeMO'' = ''chademo''"
  by (simp_all add: lower_def lower_char_def)

lemma first_parsed_cong:
  "(\<And>c. c \<in> set cs \<Longrightarrow> r c = r' c) \<Longrightarrow> first_parsed parse r cs = first_parsed parse r' cs"
  by (induction cs) (auto split: option.splits)

lemma nth_consolidate_latitude:
  "i < length (rows df) \<Longrightarrow>
   (rows (consolidate parse df) ! i) ''latitude'' =
   (if ''consolidated_latitude'' \<in> set (columns df) \<or> ''consolidated_lagitude'' \<in> set (columns df)
    then float_cell (first_parsed parse (rows df ! i)
           (filter (\<lambda>c. c \<in> set (columns df))
              [''latitude'', ''consolidated_latitude'', ''consolidated_lagitude'']))
    else (rows df ! i) ''latitude'')"
  by (auto simp: consolidate_def nth_fill_from fillna_def split: option.splits)

lemma nth_consolidate_longitude:
  "i < length (rows df) \<Longrightarrow>
   (rows (consolidate parse df) ! i) ''longitude'' =
   (if ''consolidated_longitude'' \<in> set (columns df)
    then float_cell (first_parsed parse (rows df ! i)
           (filter (\<lambda>c. c \<in> set (columns df)) [''longitude'', ''consolidated_longitude'']))
    else (rows df ! i) ''longitude'')"
  by (auto simp: consolidate_def nth_fill_from fillna_def split: option.splits)

lemma filter_keep_present:
  "set cs \<subseteq> set cols \<Longrightarrow>
   filter (\<lambda>c. c \<in> set (columns (keep_present df))) cs = filter (\<lambda>c. c \<in> set (columns df)) cs"
  by (induction cs) auto

lemma cell_at_latitude:
  assumes res: "clean_irve parse sn df = Inr df'" and i: "i < length (rows df)"
  shows "cell_at (Inr df') i ''latitude'' =
    (if ''consolidated_latitude'' \<in> set (columns df) \<or> ''consolidated_lagitude'' \<in> set (columns df)
     then Inr (float_cell (first_parsed parse (rows df ! i)
            (filter (\<lambda>c. c \<in> set (columns df))
               [''latitude'', ''consolidated_latitude'', ''consolidated_lagitude''])))
     else if ''latitude'' \<in> set (columns df) then Inr ((rows df ! i) ''latitude'')
     else Inl KeyError)"
proof -
  have fp: "first_parsed parse (rows (keep_present df) ! i)
          (filter (\<lambda>c. c \<in> set (columns df))
               [''latitude'', ''consolidated_latitude'', ''consolidated_lagitude'']) =
        first_parsed parse (rows df ! i)
          (filter (\<lambda>c. c \<in> set (columns df))
               [''latitude'', ''consolidated_latitude'', ''consolidated_lagitude''])"
    using i by (intro first_parsed_cong) (auto split: if_splits)
  have flt: "filter (\<lambda>c. c \<in> set (columns (keep_present df)))
               [''latitude'', ''consolidated_latitude'', ''consolidated_lagitude''] =
             filter (\<lambda>c. c \<in> set (columns df))
               [''latitude'', ''consolidated_latitude'', ''consolidated_lagitude'']"
    by (rule filter_keep_present) simp
  have "(rows (consolidate parse (keep_present df)) ! i) ''latitude'' =
     (if ''consolidated_latitude'' \<in> set (columns df) \<or> ''consolidated_lagitude'' \<in> set (columns df)
      then float_cell (first_parsed parse (rows df ! i)
            (filter (\<lambda>c. c \<in> set (columns df))
               [''latitude'', ''consolidated_latitude'', ''consolidated_lagitude'']))
      else (rows (keep_present df) ! i) ''latitude'')"
    using i by (simp only: nth_consolidate_latitude length_keep_present flt fp)
      (simp)
  moreover have "cell_at (Inr df') i ''latitude'' =
      cell_at (Inr (power_columns parse (consolidate parse (keep_present df)))) i ''latitude''"
    by (rule cell_at_clean_irve [OF res]) simp
  moreover have "cell_at (Inr (power_columns parse (consolidate parse (keep_present df)))) i ''latitude'' =
      (if ''latitude'' \<in> set (columns df) \<or> ''consolidated_latitude'' \<in> set (columns df) \<or>
          ''consolidated_lagitude'' \<in> set (columns df)
       then Inr ((rows (consolidate parse (keep_present df)) ! i) ''latitude'') else Inl KeyError)"
    using i by (auto simp add: cell_at_def nth_power_columns)
  moreover have "''latitude'' \<in> set (columns df) \<Longrightarrow>
      (rows (keep_present df) ! i) ''latitude'' = (rows df ! i) ''latitude''"
    using i by simp
  ultimately show ?thesis
    by (simp del: columns_consolidate columns_keep_present nth_keep_present)
qed


lemma cell_at_longitude:
  assumes res: "clean_irve parse sn df = Inr df'" and i: "i < length (rows df)"
  shows "cell_at (Inr df') i ''longitude'' =
    (if ''consolidated_longitude'' \<in> set (columns df)
     then Inr (float_cell (first_parsed parse (rows df ! i)
            (filter (\<lambda>c. c \<in> set (columns df)) [''longitude'', ''consolidated_longitude''])))
     else if ''longitude'' \<in> set (columns df) then Inr ((rows df ! i) ''longitude'')
     else Inl KeyError)"
proof -
  have fp: "first_parsed parse (rows (keep_present df) ! i)
          (filter (\<lambda>c. c \<in> set (columns df)) [''longitude'', ''consolidated_longitude'']) =
        first_parsed parse (rows df ! i)
          (filter (\<lambda>c. c \<in> set (columns df)) [''longitude'', ''consolidated_longitude''])"
    using i by (intro first_parsed_cong) (auto split: if_splits)
  have flt: "filter (\<lambda>c. c \<in> set (columns (keep_present df)))
               [''longitude'', ''consolidated_longitude''] =
             filter (\<lambda>c. c \<in> set (columns df)) [''longitude'', ''consolidated_longitude'']"
    by (rule filter_keep_present) simp
  have "(rows (consolidate parse (keep_present df)) ! i) ''longitude'' =
     (if ''consolidated_longitude'' \<in> set (columns df)
      then float_cell (first_parsed parse (rows df ! i)
            (filter (\<lambda>c. c \<in> set (columns df)) [''longitude'', ''consolidated_longitude'']))
      else (rows (keep_present df) ! i) ''longitude'')"
    using i by (simp only: nth_consolidate_longitude length_keep_present flt fp)
      (simp)
  moreover have "cell_at (Inr df') i ''longitude'' =
      cell_at (Inr (power_columns parse (consolidate parse (keep_present df)))) i ''longitude''"
    by (rule cell_at_clean_irve [OF res]) simp
  moreover have "cell_at (Inr (power_columns parse (consolidate parse (keep_present df)))) i ''longitude'' =
      (if ''longitude'' \<in> set (columns df) \<or> ''consolidated_longitude'' \<in> set (columns df)
       then Inr ((rows (consolidate parse (keep_present df)) ! i) ''longitude'') else Inl KeyError)"
    using i by (auto simp add: cell_at_def nth_power_columns)
  moreover have "''longitude'' \<in> set (columns df) \<Longrightarrow>
      (rows (keep_present df) ! i) ''longitude'' = (rows df ! i) ''longitude''"
    using i by simp
  ultimately show ?thesis
    by (simp del: columns_consolidate columns_keep_present nth_keep_present)
qed

lemma raw_coordinate_kept:
  assumes "i < length (rows df)"
    and "''connecteur'' \<in> set (columns df) \<longrightarrow> str_accessor_ok ''connecteur'' df"
  shows "''consolidated_latitude'' \<notin> set (columns df) \<Longrightarrow>
         ''consolidated_lagitude'' \<notin> set (columns df) \<Longrightarrow> ''latitude'' \<in> set (columns df) \<Longrightarrow>
         cell_at (clean_irve parse sn df) i ''latitude'' = Inr ((rows df ! i) ''latitude'')"
    and "''consolidated_longitude'' \<notin> set (columns df) \<Longrightarrow> ''longitude'' \<in> set (columns df) \<Longrightarrow>
         cell_at (clean_irve parse sn df) i ''longitude'' = Inr ((rows df ! i) ''longitude'')"
proof -
  from assms(2) obtain df' where res: "clean_irve parse sn df = Inr df'"
    using clean_irve_returns [of parse sn df] by blast
  show "''consolidated_latitude'' \<notin> set (columns df) \<Longrightarrow>
         ''consolidated_lagitude'' \<notin> set (columns df) \<Longrightarrow> ''latitude'' \<in> set (columns df) \<Longrightarrow>
         cell_at (clean_irve parse sn df) i ''latitude'' = Inr ((rows df ! i) ''latitude'')"
    unfolding res cell_at_latitude [OF res assms(1)] by simp
  show "''consolidated_longitude'' \<notin> set (columns df) \<Longrightarrow> ''longitude'' \<in> set (columns df) \<Longrightarrow>
         cell_at (clean_irve parse sn df) i ''longitude'' = Inr ((rows df ! i) ''longitude'')"
    unfolding res cell_at_longitude [OF res assms(1)] by simp
qed

section \<open>The cleaned values\<close>

lemma cell_at_clean_irve_power:
  assumes i: "i < length (rows df)"
    and ok: "''connecteur'' \<in> set (columns df) \<longrightarrow> str_accessor_ok ''connecteur'' df"
    and p: "''puissance_nominale'' \<in> set (columns df)"
  shows "cell_at (clean_irve parse sn df) i ''puissance_kw'' =
           Inr (float_cell (clip_lower 0 (to_numeric parse ((rows df ! i) ''puissance_nominale''))))"
    and "cell_at (clean_irve parse sn df) i ''categorie_puissance'' =
           Inr (Str (bin (clip_lower 0 (to_numeric parse ((rows df ! i) ''puissance_nominale'')))))"
proof -
  from ok obtain df' where res: "clean_irve parse sn df = Inr df'"
    using clean_irve_returns [of parse sn df] by blast
  have "cell_at (Inr df') i ''puissance_kw'' =
      cell_at (Inr (power_columns parse (consolidate parse (keep_present df)))) i ''puissance_kw''"
    by (rule cell_at_clean_irve [OF res]) simp
  then show "cell_at (clean_irve parse sn df) i ''puissance_kw'' =
           Inr (float_cell (clip_lower 0 (to_numeric parse ((rows df ! i) ''puissance_nominale''))))"
    using i p by (simp add: res cell_at_def nth_power_columns)
  have "cell_at (Inr df') i ''categorie_puissance'' =
      cell_at (Inr (power_columns parse (consolidate parse (keep_present df)))) i ''categorie_puissance''"
    by (rule cell_at_clean_irve [OF res]) simp
  then show "cell_at (clean_irve parse sn df) i ''categorie_puissance'' =
           Inr (Str (bin (clip_lower 0 (to_numeric parse ((rows df ! i) ''puissance_nominale'')))))"
    using i p by (simp add: res cell_at_def nth_power_columns)
qed

lemma cell_at_clean_irve_kept:
  assumes i: "i < length (rows df)"
    and ok: "''connecteur'' \<in> set (columns df) \<longrightarrow> str_accessor_ok ''connecteur'' df"
    and c: "c \<in> set (columns df)" "c \<in> set cols"
      "c \<notin> {''latitude'', ''longitude'', ''is_dc'', ''access_24_7'', ''est_publique'',
             ''statut_normalise'', ''code_insee_commune'', ''consolidated_latitude'',
             ''consolidated_longitude'', ''puissance_kw'', ''categorie_puissance''}"
  shows "cell_at (clean_irve parse sn df) i c = Inr ((rows df ! i) c)"
proof -
  from ok obtain df' where res: "clean_irve parse sn df = Inr df'"
    using clean_irve_returns [of parse sn df] by blast
  have "cell_at (Inr df') i c =
      cell_at (Inr (power_columns parse (consolidate parse (keep_present df)))) i c"
    using c(3) by (intro cell_at_clean_irve [OF res]) simp
  then show ?thesis
    using i c by (simp add: res cell_at_def nth_power_columns)
qed

section \<open>The outlier filter\<close>

lemma mask_geo_in_box:
  "(between (r ''latitude'') (- 22) 52 \<and> between (r ''longitude'') (- 63) 55) = in_box r"
  by (auto simp: between_def in_box_def split: option.splits)

lemma length_filter_not:
  "length (filter (\<lambda>x. \<not> P x) xs) = length xs - length (filter P xs)"
  using sum_length_filter_compl [of P xs] by simp

lemma geo_outliers_cases:
  "geo_outliers df =
   (if ''latitude'' \<in> set (columns df) \<and> ''longitude'' \<in> set (columns df)
    then if has_text ''latitude'' df \<or> has_text ''longitude'' df then Inl TypeError
         else if length (filter (\<lambda>r. r ''latitude'' \<noteq> NA \<and> r ''longitude'' \<noteq> NA) (rows df))
                 < min 5000 (length (rows df))
         then Inl ValueError
         else Inr (Some (length (rows df) - length (filter in_box (rows df))),
                   \<lparr>columns = columns df, rows = filter in_box (rows df)\<rparr>)
    else Inr (None, df))"
  by (simp add: geo_outliers_def Let_def keep_rows_def mask_geo_in_box length_filter_not)



lemma row_values [simp]:
  "paris_row ''latitude'' = Num 48.85" "paris_row ''longitude'' = Num 2.35"
  "no_latitude_row ''latitude'' = NA" "no_latitude_row ''longitude'' = Num 2.35"
  by (simp_all add: paris_row_def no_latitude_row_def row_of_def)

lemma in_box_paris_row [simp]: "in_box paris_row"
  unfolding in_box_def by (simp add: number_of_def)

lemma in_box_no_latitude_row [simp]: "\<not> in_box no_latitude_row"
  unfolding in_box_def by (simp add: number_of_def)



lemma geo_outliers_geo_table:
  "geo_outliers geo_table = Inr (Some 1, \<lparr>columns = [''latitude'', ''longitude''], rows = [paris_row]\<rparr>)"
  by (simp add: geo_outliers_cases geo_table_def has_text_def row_of_def in_box_def number_of_def)



text \<open>
  C2.  The power rule announces the number of values above 400 and keeps the rows whose
  power is at most 400.  On the table of three rows with the powers absent, 500 and 50 it
  announces one value above 400 and keeps the row with 50 alone: the row without a power,
  which is not above 400, is removed as well.
\<close>

theorem absent_power_removed:
  "power_outliers power_table =
     Inr (Some 1, \<lparr>columns = [''puissance_kw''], rows = [row_of [(''puissance_kw'', Num 50)]]\<rparr>) \<and>
   \<not> gt ((rows power_table ! 0) ''puissance_kw'') 400"
  by (simp add: power_outliers_def power_table_def has_text_def keep_rows_def row_of_def
      gt_def le_def number_of_def)

section \<open>The column resolver\<close>

lemma re_fullmatch_loose_iff:
  "re_fullmatch_loose cand s \<longleftrightarrow>
   (\<exists>u v. s = u @ cand @ v \<and> CHR 0x0A \<notin> set u \<and> CHR 0x0A \<notin> set v)"
proof (induction s)
  case Nil
  then show ?case by auto
next
  case (Cons c cs)
  have here: "(take (length cand) (c # cs) = cand \<and> CHR 0x0A \<notin> set (drop (length cand) (c # cs)))
      \<longleftrightarrow> (\<exists>v. c # cs = cand @ v \<and> CHR 0x0A \<notin> set v)"
    by (metis append_eq_conv_conj append_take_drop_id)
  have "(\<exists>u v. c # cs = u @ cand @ v \<and> CHR 0x0A \<notin> set u \<and> CHR 0x0A \<notin> set v) \<longleftrightarrow>
        (\<exists>v. c # cs = cand @ v \<and> CHR 0x0A \<notin> set v) \<or>
        (c \<noteq> CHR 0x0A \<and> (\<exists>u v. cs = u @ cand @ v \<and> CHR 0x0A \<notin> set u \<and> CHR 0x0A \<notin> set v))"
    (is "?L \<longleftrightarrow> ?A \<or> ?B")
  proof
    assume ?L
    then obtain u v where uv: "c # cs = u @ cand @ v" "CHR 0x0A \<notin> set u" "CHR 0x0A \<notin> set v"
      by blast
    show "?A \<or> ?B"
    proof (cases u)
      case Nil
      with uv show ?thesis by auto
    next
      case (Cons a u')
      with uv have "cs = u' @ cand @ v" "c \<noteq> CHR 0x0A" "CHR 0x0A \<notin> set u'" by auto
      with uv(3) show ?thesis by blast
    qed
  next
    assume "?A \<or> ?B"
    then show ?L
    proof
      assume ?A
      then obtain v where "c # cs = [] @ cand @ v" "CHR 0x0A \<notin> set v" by auto
      then show ?L by (metis empty_iff empty_set)
    next
      assume ?B
      then obtain u v where "c # cs = (c # u) @ cand @ v" "CHR 0x0A \<notin> set (c # u)"
        "CHR 0x0A \<notin> set v" by auto
      then show ?L by blast
    qed
  qed
  with here Cons.IH show ?case by simp
qed

lemma find_append_cases:
  "find P (xs @ ys) = (case find P xs of Some x \<Rightarrow> Some x | None \<Rightarrow> find P ys)"
  by (induction xs) auto

lemma fold_low:
  "fold (\<lambda>c low. low(lower c \<mapsto> c)) cs m cand =
   (case find (\<lambda>c. lower c = cand) (rev cs) of Some c \<Rightarrow> Some c | None \<Rightarrow> m cand)"
  by (induction cs arbitrary: m) (auto simp: find_append_cases split: option.splits)

lemma low_dict_find: "low_dict cs cand = find (\<lambda>c. lower c = cand) (rev cs)"
  by (simp add: low_dict_def fold_low split: option.splits)

lemma low_dict_None: "low_dict cs cand = None \<longleftrightarrow> cand \<notin> lower ` set cs"
  by (auto simp: low_dict_find find_None_iff)

lemma exact_loop_low_dict:
  "exact_loop (low_dict cs) candidates =
   (case find (\<lambda>cand. cand \<in> lower ` set cs) candidates of
      Some cand \<Rightarrow> find (\<lambda>c. lower c = cand) (rev cs) | None \<Rightarrow> None)"
proof (induction candidates)
  case Nil
  then show ?case by simp
next
  case (Cons cand candidates)
  show ?case
  proof (cases "cand \<in> lower ` set cs")
    case True
    then obtain c where "low_dict cs cand = Some c"
      using low_dict_None [of cs cand] by auto
    with True show ?thesis by (simp add: low_dict_find)
  next
    case False
    then have "low_dict cs cand = None" by (simp add: low_dict_None)
    with False Cons.IH show ?thesis by simp
  qed
qed

lemma loose_loop_find:
  "loose_loop cs candidates =
   find (\<lambda>c. \<exists>cand \<in> set candidates. re_fullmatch_loose cand (lower c)) cs"
  by (induction cs) (auto simp: list_ex_iff)

lemma first_col_find:
  "first_col cs candidates =
   (case find (\<lambda>cand. cand \<in> lower ` set cs) candidates of
      Some cand \<Rightarrow> find (\<lambda>c. lower c = cand) (rev cs)
    | None \<Rightarrow> find (\<lambda>c. \<exists>cand \<in> set candidates. re_fullmatch_loose cand (lower c)) cs)"
proof (cases "find (\<lambda>cand. cand \<in> lower ` set cs) candidates")
  case None
  then show ?thesis
    by (simp add: first_col_def exact_loop_low_dict loose_loop_find)
next
  case (Some cand)
  then have "cand \<in> lower ` set cs" by (auto simp: find_Some_iff)
  then obtain c where "low_dict cs cand = Some c"
    using low_dict_None [of cs cand] by auto
  with Some show ?thesis
    by (simp add: first_col_def exact_loop_low_dict low_dict_find)
qed

lemma lower_names:
  "lower ''lat'' = ''lat''" "lower ''latitude'' = ''latitude''" "lower ''Latitude'' = ''latitude''"
  "lower ''station_lat'' = ''station_lat''" "lower ''station_latitude'' = ''station_latitude''"
  "lower ''y_latitude'' = ''y_latitude''" "lower ''ylat'' = ''ylat''"
  by (simp_all add: lower_def lower_char_def)

text \<open>
  C3, as the code has it.  The candidates are compared as they are with the lower-cased
  column names.  If some candidate is the lower-cased name of a column, the resolver takes
  the first such candidate in the order of the candidates and returns the last column
  with that lower-cased name.  Otherwise it returns the first column, in the order of the
  columns, whose lower-cased name contains some candidate with no line break before or
  after it.  Otherwise it returns nothing.
\<close>

theorem first_col_order:
  "first_col cs candidates =
   (case find (\<lambda>cand. cand \<in> lower ` set cs) candidates of
      Some cand \<Rightarrow> find (\<lambda>c. lower c = cand) (rev cs)
    | None \<Rightarrow>
        find (\<lambda>c. \<exists>cand \<in> set candidates.
                     \<exists>u v. lower c = u @ cand @ v \<and> CHR 0x0A \<notin> set u \<and> CHR 0x0A \<notin> set v) cs)"
  by (simp only: first_col_find re_fullmatch_loose_iff)

theorem first_col_order_witness:
  "first_col [''Latitude'', ''lat'', ''latitude''] LAT_CANDS = Some ''latitude''"
  using first_col_order [of "[''Latitude'', ''lat'', ''latitude'']" LAT_CANDS]
  by (simp add: LAT_CANDS_def lower_names)

theorem first_col_order_counterexample:
  "first_col [''lat'', ''latitude''] LAT_CANDS = Some ''latitude'' \<and>
   spec_resolve [''lat'', ''latitude''] LAT_CANDS = Some ''lat'' \<and>
   first_col [''station_lat'', ''station_latitude''] LAT_CANDS = Some ''station_lat'' \<and>
   spec_resolve [''station_lat'', ''station_latitude''] LAT_CANDS = Some ''station_latitude''"
  by (simp add: first_col_def low_dict_def spec_resolve_def LAT_CANDS_def lower_names)

section \<open>AC or DC\<close>




section \<open>The scenario of a Paris station\<close>

lemma search_paris: "re_search_cp ''12 Rue de Paris, 75010 Paris'' = Some ''75010''"
  by (simp add: re_search_cp_def cp_here_def is_digit_def is_word_def)

lemma render_cleaning_eq:
  "''adresse_station'' \<in> set (columns df) \<Longrightarrow>
   render_cleaning parse sn df =
   clean_irve parse sn
     (assign ''departement''
        (\<lambda>r. str_cell (extract_2_digits (py_str sn (r ''code_postal''))))
        (assign ''code_postal''
           (\<lambda>r. str_cell (geo_extract_code_postal sn (r ''adresse_station''))) df))"
  by (simp add: render_cleaning_def add_departement_from_cp_simple_def Let_def)

lemma scenario_prepared:
  "render_cleaning parse sn scenario_table =
   clean_irve parse sn
     \<lparr>columns = [''adresse_station'', ''connecteur'', ''puissance_nominale'', ''code_postal'',
                 ''departement''],
      rows = [(row_of [(''adresse_station'', Str ''12 Rue de Paris, 75010 Paris''),
                      (''connecteur'', Str ''CCS''),
                      (''puissance_nominale'', Num 150)])
              (''code_postal'' := Str ''75010'', ''departement'' := Str ''75'')]\<rparr>"
proof -
  have "geo_extract_code_postal sn (Str ''12 Rue de Paris, 75010 Paris'') = Some ''75010''"
    by (simp add: geo_extract_code_postal_def py_str_def search_paris)
  moreover have "extract_2_digits ''75010'' = Some ''75''"
    by (simp add: extract_2_digits_def is_digit_def)
  ultimately show ?thesis
    by (simp add: render_cleaning_eq scenario_table_def assign_def row_of_def str_cell_def py_str_def)
qed

text \<open>
  C5, as the code has it.  For the raw row with the address \<open>12 Rue de Paris, 75010 Paris\<close>,
  the connector \<open>CCS\<close> and the power 150, the cleaned row has the postal code \<open>75010\<close>, the
  department \<open>75\<close>, \<open>is_dc\<close> true, the power 150 and the category \<open>DC_ultra\<close>: 150 is above
  149, the upper end of \<open>DC_rapide\<close>.
\<close>

theorem scenario_row:
  "cell_at (render_cleaning parse_sample str_num_sample scenario_table) 0 ''code_postal'' =
     Inr (Str ''75010'') \<and>
   cell_at (render_cleaning parse_sample str_num_sample scenario_table) 0 ''departement'' =
     Inr (Str ''75'') \<and>
   cell_at (render_cleaning parse_sample str_num_sample scenario_table) 0 ''is_dc'' =
     Inr (Bool True) \<and>
   cell_at (render_cleaning parse_sample str_num_sample scenario_table) 0 ''puissance_kw'' =
     Inr (Num 150) \<and>
   cell_at (render_cleaning parse_sample str_num_sample scenario_table) 0 ''categorie_puissance'' =
     Inr (Str ''DC_ultra'')"
proof -
  let ?df = "\<lparr>columns = [''adresse_station'', ''connecteur'', ''puissance_nominale'', ''code_postal'',
                 ''departement''],
      rows = [(row_of [(''adresse_station'', Str ''12 Rue de Paris, 75010 Paris''),
                      (''connecteur'', Str ''CCS''),
                      (''puissance_nominale'', Num 150)])
              (''code_postal'' := Str ''75010'', ''departement'' := Str ''75'')]\<rparr>"
  have i: "0 < length (rows ?df)" by simp
  have ok: "''connecteur'' \<in> set (columns ?df) \<longrightarrow> str_accessor_ok ''connecteur'' ?df"
    by (simp add: str_accessor_ok_def row_of_def)
  have "contains ''ccs'' ''ccs''" by simp
  then have dc: "list_ex (contains (lower ''CCS'')) (map lower [''DC'', ''CCS'', ''Combo'', ''CHAdeMO''])"
    by (simp add: lower_keywords)
  have "cell_at (clean_irve parse_sample str_num_sample ?df) 0 ''code_postal'' = Inr (Str ''75010'')"
    using cell_at_clean_irve_kept [OF i ok, of "''code_postal''" parse_sample str_num_sample]
    by simp
  moreover have "cell_at (clean_irve parse_sample str_num_sample ?df) 0 ''departement'' = Inr (Str ''75'')"
    using cell_at_clean_irve_kept [OF i ok, of "''departement''" parse_sample str_num_sample]
    by simp
  moreover have "cell_at (clean_irve parse_sample str_num_sample ?df) 0 ''is_dc'' = Inr (Bool True)"
    using cell_at_clean_irve_is_dc [OF i ok, of parse_sample str_num_sample] dc
    by (simp add: row_of_def str_contains_nocase_def)
  moreover have "cell_at (clean_irve parse_sample str_num_sample ?df) 0 ''puissance_kw'' = Inr (Num 150)"
    using cell_at_clean_irve_power(1) [OF i ok, of parse_sample str_num_sample]
    by (simp add: row_of_def to_numeric_def clip_lower_def float_cell_def)
  moreover have "cell_at (clean_irve parse_sample str_num_sample ?df) 0 ''categorie_puissance'' =
      Inr (Str ''DC_ultra'')"
    using cell_at_clean_irve_power(2) [OF i ok, of parse_sample str_num_sample]
    by (simp add: row_of_def to_numeric_def clip_lower_def bin_def)
  ultimately show ?thesis
    by (simp only: scenario_prepared) 
qed

theorem scenario_category_counterexample:
  "cell_at (render_cleaning parse_sample str_num_sample scenario_table) 0 ''categorie_puissance'' \<noteq>
     Inr (Str ''DC_rapide'') \<and>
   bin (Some 150) = ''DC_ultra''"
proof -
  let ?df = "\<lparr>columns = [''adresse_station'', ''connecteur'', ''puissance_nominale'', ''code_postal'',
                 ''departement''],
      rows = [(row_of [(''adresse_station'', Str ''12 Rue de Paris, 75010 Paris''),
                      (''connecteur'', Str ''CCS''),
                      (''puissance_nominale'', Num 150)])
              (''code_postal'' := Str ''75010'', ''departement'' := Str ''75'')]\<rparr>"
  have i: "0 < length (rows ?df)" by simp
  have ok: "''connecteur'' \<in> set (columns ?df) \<longrightarrow> str_accessor_ok ''connecteur'' ?df"
    by (simp add: str_accessor_ok_def row_of_def)
  have "cell_at (clean_irve parse_sample str_num_sample ?df) 0 ''categorie_puissance'' =
      Inr (Str ''DC_ultra'')"
    using cell_at_clean_irve_power(2) [OF i ok, of parse_sample str_num_sample]
    by (simp add: row_of_def to_numeric_def clip_lower_def bin_def)
  then show ?thesis
    by (simp add: scenario_prepared bin_def)
qed

section \<open>Saving\<close>

text \<open>
  C6, as the code has it.  Once the directory exists, \<open>render\<close> returns whatever the writes
  do, its last message is the closing one, and it reports at most one failure, by the
  same message for both forms.  When the delimited text form fails, the failure is
  reported and the columnar form is not attempted.  When the delimited text form is
  written and the columnar form fails, the failure is reported after the success of the
  first.  When both are written, only the first is reported as saved.
\<close>

theorem save_reports:
  "(makedirs d = None \<longrightarrow>
      fst (save d) = Returned \<and> last (snd (save d)) = Ready \<and>
      length (filter is_error (snd (save d))) \<le> 1) \<and>
   (makedirs d = None \<and> to_file d CSV = Some e \<longrightarrow>
      snd (save d) = [Write CSV, Error_save e, Ready]) \<and>
   (makedirs d = None \<and> to_file d CSV = None \<and> to_file d Parquet = Some e \<longrightarrow>
      snd (save d) = [Write CSV, Success_csv_saved, Write Parquet, Error_save e, Ready]) \<and>
   (makedirs d = None \<and> to_file d CSV = None \<and> to_file d Parquet = None \<longrightarrow>
      Success_csv_saved \<in> set (snd (save d)) \<and> Write Parquet \<in> set (snd (save d)))"
  by (auto simp: save_def is_error_def split: option.splits sum.splits)

theorem save_reports_witness:
  "makedirs parquet_fails = None \<and> to_file parquet_fails CSV = None \<and>
   to_file parquet_fails Parquet = Some ''No space left on device'' \<and>
   save parquet_fails =
     (Returned, [Write CSV, Success_csv_saved, Write Parquet,
                 Error_save ''No space left on device'', Ready])"
  using save_reports [of parquet_fails "''No space left on device''"]
  by (simp add: parquet_fails_def prod_eq_iff)

theorem csv_failure_blocks_parquet_counterexample:
  "to_file csv_fails CSV = Some ''No space left on device'' \<and>
   to_file csv_fails Parquet = None \<and>
   save csv_fails = (Returned, [Write CSV, Error_save ''No space left on device'', Ready]) \<and>
   Write Parquet \<notin> set (snd (save csv_fails))"
  by (simp add: save_def csv_fails_def)

section \<open>The coordinates\<close>

text \<open>
  C7, as the code has it.  When the table has a fallback column for the latitude
  (\<open>consolidated_latitude\<close>, then the misspelled \<open>consolidated_lagitude\<close>, an ordinary
  fallback), the latitude of a row is the first value that reads as a number among the
  primary column and the fallback columns that exist, in this order, and absent when none
  does; the same for the longitude and its fallback \<open>consolidated_longitude\<close>.  When the
  table has no fallback column, the primary column is left as it was, not read as a
  number.  No reading of a number raises: the cleaning raises only on a connector column
  without text.
\<close>

theorem coordinates_consolidated:
  "(i < length (rows df) \<and>
   (''connecteur'' \<in> set (columns df) \<longrightarrow> str_accessor_ok ''connecteur'' df) \<longrightarrow>
   (''consolidated_latitude'' \<in> set (columns df) \<or> ''consolidated_lagitude'' \<in> set (columns df) \<longrightarrow>
      cell_at (clean_irve parse sn df) i ''latitude'' =
        Inr (float_cell (first_parsed parse (rows df ! i)
               (filter (\<lambda>c. c \<in> set (columns df))
                  [''latitude'', ''consolidated_latitude'', ''consolidated_lagitude''])))) \<and>
   (''consolidated_longitude'' \<in> set (columns df) \<longrightarrow>
      cell_at (clean_irve parse sn df) i ''longitude'' =
        Inr (float_cell (first_parsed parse (rows df ! i)
               (filter (\<lambda>c. c \<in> set (columns df)) [''longitude'', ''consolidated_longitude''])))) \<and>
   (''consolidated_latitude'' \<notin> set (columns df) \<and> ''consolidated_lagitude'' \<notin> set (columns df) \<and>
    ''latitude'' \<in> set (columns df) \<longrightarrow>
      cell_at (clean_irve parse sn df) i ''latitude'' = Inr ((rows df ! i) ''latitude'')) \<and>
   (''consolidated_longitude'' \<notin> set (columns df) \<and> ''longitude'' \<in> set (columns df) \<longrightarrow>
      cell_at (clean_irve parse sn df) i ''longitude'' = Inr ((rows df ! i) ''longitude''))) \<and>
   (clean_irve parse sn df = Inl e \<longrightarrow>
      e = AttributeError \<and> ''connecteur'' \<in> set (columns df) \<and>
      \<not> str_accessor_ok ''connecteur'' df)"
proof -
  have coords: "i < length (rows df) \<and>
   (''connecteur'' \<in> set (columns df) \<longrightarrow> str_accessor_ok ''connecteur'' df) \<longrightarrow>
   (''consolidated_latitude'' \<in> set (columns df) \<or> ''consolidated_lagitude'' \<in> set (columns df) \<longrightarrow>
      cell_at (clean_irve parse sn df) i ''latitude'' =
        Inr (float_cell (first_parsed parse (rows df ! i)
               (filter (\<lambda>c. c \<in> set (columns df))
                  [''latitude'', ''consolidated_latitude'', ''consolidated_lagitude''])))) \<and>
   (''consolidated_longitude'' \<in> set (columns df) \<longrightarrow>
      cell_at (clean_irve parse sn df) i ''longitude'' =
        Inr (float_cell (first_parsed parse (rows df ! i)
               (filter (\<lambda>c. c \<in> set (columns df)) [''longitude'', ''consolidated_longitude''])))) \<and>
   (''consolidated_latitude'' \<notin> set (columns df) \<and> ''consolidated_lagitude'' \<notin> set (columns df) \<and>
    ''latitude'' \<in> set (columns df) \<longrightarrow>
      cell_at (clean_irve parse sn df) i ''latitude'' = Inr ((rows df ! i) ''latitude'')) \<and>
   (''consolidated_longitude'' \<notin> set (columns df) \<and> ''longitude'' \<in> set (columns df) \<longrightarrow>
      cell_at (clean_irve parse sn df) i ''longitude'' = Inr ((rows df ! i) ''longitude''))"
  proof (intro impI)
    assume "i < length (rows df) \<and>
     (''connecteur'' \<in> set (columns df) \<longrightarrow> str_accessor_ok ''connecteur'' df)"
    then have i: "i < length (rows df)"
      and "\<exists>df'. clean_irve parse sn df = Inr df'"
      by (simp_all add: clean_irve_returns)
    then obtain df' where res: "clean_irve parse sn df = Inr df'" by blast
    show "(''consolidated_latitude'' \<in> set (columns df) \<or> ''consolidated_lagitude'' \<in> set (columns df) \<longrightarrow>
        cell_at (clean_irve parse sn df) i ''latitude'' =
          Inr (float_cell (first_parsed parse (rows df ! i)
                 (filter (\<lambda>c. c \<in> set (columns df))
                    [''latitude'', ''consolidated_latitude'', ''consolidated_lagitude''])))) \<and>
     (''consolidated_longitude'' \<in> set (columns df) \<longrightarrow>
        cell_at (clean_irve parse sn df) i ''longitude'' =
          Inr (float_cell (first_parsed parse (rows df ! i)
                 (filter (\<lambda>c. c \<in> set (columns df)) [''longitude'', ''consolidated_longitude''])))) \<and>
     (''consolidated_latitude'' \<notin> set (columns df) \<and> ''consolidated_lagitude'' \<notin> set (columns df) \<and>
      ''latitude'' \<in> set (columns df) \<longrightarrow>
        cell_at (clean_irve parse sn df) i ''latitude'' = Inr ((rows df ! i) ''latitude'')) \<and>
     (''consolidated_longitude'' \<notin> set (columns df) \<and> ''longitude'' \<in> set (columns df) \<longrightarrow>
        cell_at (clean_irve parse sn df) i ''longitude'' = Inr ((rows df ! i) ''longitude''))"
      unfolding res cell_at_latitude [OF res i] cell_at_longitude [OF res i] by simp
  qed
  have exc: "clean_irve parse sn df = Inl e \<longrightarrow>
      e = AttributeError \<and> ''connecteur'' \<in> set (columns df) \<and>
      \<not> str_accessor_ok ''connecteur'' df"
  proof
    assume e: "clean_irve parse sn df = Inl e"
    then have "\<nexists>df'. clean_irve parse sn df = Inr df'" by simp
    then have "''connecteur'' \<in> set (columns df) \<and> \<not> str_accessor_ok ''connecteur'' df"
      by (simp add: clean_irve_returns)
    with e show "e = AttributeError \<and> ''connecteur'' \<in> set (columns df) \<and>
      \<not> str_accessor_ok ''connecteur'' df"
      by (simp add: clean_irve_raises)
  qed
  show ?thesis by (rule conjI [OF coords exc])
qed

theorem coordinates_consolidated_witness:
  "0 < length (rows coords_table) \<and>
   ''consolidated_lagitude'' \<in> set (columns coords_table) \<and>
   ''consolidated_longitude'' \<in> set (columns coords_table) \<and>
   cell_at (clean_irve parse_sample str_num_sample coords_table) 0 ''latitude'' = Inr (Num 48.85) \<and>
   cell_at (clean_irve parse_sample str_num_sample coords_table) 0 ''longitude'' = Inr (Num 2.35)"
  using coordinates_consolidated [of 0 coords_table parse_sample str_num_sample]
  by (simp add: coords_table_def row_of_def to_numeric_def parse_sample_def float_cell_def)

theorem unparsed_latitude_counterexample:
  "to_numeric parse_sample ((rows raw_latitude_table ! 0) ''latitude'') = None \<and>
   cell_at (clean_irve parse_sample str_num_sample raw_latitude_table) 0 ''latitude'' =
     Inr (Str ''nord'')"
  using raw_coordinate_kept [of 0 raw_latitude_table parse_sample str_num_sample]
  by (simp add: raw_latitude_table_def row_of_def to_numeric_def parse_sample_def)

section \<open>The rated power\<close>

text \<open>
  C8.  In a table with a raw power column, the cleaned power \<open>puissance_kw\<close> of a row is
  \<open>max 0 p\<close> when the raw power reads as the number \<open>p\<close>, and absent when the raw power is
  absent or does not read as a number; and no cleaned record has a negative power.
\<close>

theorem rated_power_clipped:
  "(''puissance_nominale'' \<in> set (columns df) \<and> i < length (rows df) \<and>
    (''connecteur'' \<in> set (columns df) \<longrightarrow> str_accessor_ok ''connecteur'' df) \<longrightarrow>
    cell_at (clean_irve parse sn df) i ''puissance_kw'' =
      Inr (case to_numeric parse ((rows df ! i) ''puissance_nominale'') of
             None \<Rightarrow> NA | Some p \<Rightarrow> Num (max 0 p))) \<and>
   (cell_at (clean_irve parse sn df) i ''puissance_kw'' = Inr (Num x) \<longrightarrow> 0 \<le> x)"
proof -
  let ?d0 = "power_columns parse (consolidate parse (keep_present df))"
  have val: "cell_at (Inr df') i ''puissance_kw'' =
          (if i < length (rows df) \<and> ''puissance_nominale'' \<in> set (columns df)
           then Inr (float_cell (clip_lower 0 (to_numeric parse ((rows df ! i) ''puissance_nominale''))))
           else Inl KeyError)"
    if res: "clean_irve parse sn df = Inr df'" for df'
  proof -
    from res obtain d where d: "ac_dc ?d0 = Inr d"
      and df': "df' = drop_if_present ''consolidated_longitude''
             (drop_if_present ''consolidated_latitude'' (reorder
               (drop_if_present ''code_insee_commune''
                 (statut_normalise sn (est_publique sn (access_24_7 sn d))))))"
      by (rule clean_irve_Inr)
    have len: "length (rows d) = length (rows df)"
      using length_ac_dc [OF d] by simp
    have col: "(''puissance_kw'' \<in> set (columns d)) = (''puissance_nominale'' \<in> set (columns df))"
      using columns_ac_dc [OF d] puissance_kw_before [of parse df] by (auto split: if_splits)
    have col': "(''puissance_kw'' \<in> set (columns df')) = (''puissance_kw'' \<in> set (columns d))"
      by (simp add: df')
    show ?thesis
    proof (cases "i < length (rows df) \<and> ''puissance_nominale'' \<in> set (columns df)")
      case True
      then have "(rows df' ! i) ''puissance_kw'' = (rows d ! i) ''puissance_kw''"
        unfolding df' using len col by (intro nth_after_ac_dc) simp_all
      also have "\<dots> = (rows ?d0 ! i) ''puissance_kw''"
        using True by (intro nth_ac_dc [OF d]) simp_all
      also have "\<dots> = float_cell (clip_lower 0 (to_numeric parse ((rows df ! i) ''puissance_nominale'')))"
        using True by (simp add: nth_power_columns)
      finally show ?thesis
        using True col col' length_clean_irve [OF res] by (simp add: cell_at_def)
    next
      case False
      then show ?thesis
        using col col' length_clean_irve [OF res] by (auto simp add: cell_at_def)
    qed
  qed
  have 1: "cell_at (clean_irve parse sn df) i ''puissance_kw'' =
      Inr (case to_numeric parse ((rows df ! i) ''puissance_nominale'') of
             None \<Rightarrow> NA | Some p \<Rightarrow> Num (max 0 p))"
    if "''puissance_nominale'' \<in> set (columns df)" "i < length (rows df)"
       "''connecteur'' \<in> set (columns df) \<longrightarrow> str_accessor_ok ''connecteur'' df"
  proof -
    from that(3) obtain df' where res: "clean_irve parse sn df = Inr df'"
      using clean_irve_returns [of parse sn df] by blast
    show ?thesis
      using val [OF res] that(1,2)
      by (simp add: res float_cell_def clip_lower_def split: option.splits)
  qed
  have 2: "0 \<le> x" if h: "cell_at (clean_irve parse sn df) i ''puissance_kw'' = Inr (Num x)"
  proof -
    from h obtain df' where res: "clean_irve parse sn df = Inr df'"
      by (cases "clean_irve parse sn df") (simp_all add: cell_at_def)
    from h val [OF res] show ?thesis
      by (auto simp: res float_cell_def clip_lower_def split: if_splits option.splits)
  qed
  from 1 2 show ?thesis by blast
qed

theorem rated_power_clipped_witness:
  "''puissance_nominale'' \<in> set (columns raw_power_table) \<and>
   0 < length (rows raw_power_table) \<and>
   (rows raw_power_table ! 0) ''puissance_nominale'' = Num (- 5) \<and>
   cell_at (clean_irve parse_sample str_num_sample raw_power_table) 0 ''puissance_kw'' =
     Inr (Num 0)"
  using rated_power_clipped [of raw_power_table 0 parse_sample str_num_sample 0]
  by (simp add: raw_power_table_def row_of_def to_numeric_def)

section \<open>The power categories\<close>

lemma categorie_from_power:
  assumes "cell_at (clean_irve parse sn df) i ''categorie_puissance'' = Inr v"
  shows "\<exists>p. cell_at (clean_irve parse sn df) i ''puissance_kw'' = Inr (float_cell p) \<and>
             v = Str (bin p)"
proof -
  from assms obtain df' where res: "clean_irve parse sn df = Inr df'"
    by (cases "clean_irve parse sn df") (simp_all add: cell_at_def)
  then have ok: "''connecteur'' \<in> set (columns df) \<longrightarrow> str_accessor_ok ''connecteur'' df"
    using clean_irve_returns [of parse sn df] by blast
  from assms res have "i < length (rows df')"
    by (simp add: cell_at_def split: if_splits)
  then have i: "i < length (rows df)"
    using length_clean_irve [OF res] by simp
  have "cell_at (Inr df') i ''categorie_puissance'' =
      cell_at (Inr (power_columns parse (consolidate parse (keep_present df)))) i ''categorie_puissance''"
    by (rule cell_at_clean_irve [OF res]) simp
  with assms res have p: "''puissance_nominale'' \<in> set (columns df)"
    by (auto simp: cell_at_def split: if_splits)
  from cell_at_clean_irve_power [OF i ok p, of parse sn] assms show ?thesis
    by auto
qed

text \<open>
  C9.  The category of a power is fixed by the bins: \<open>AC_lente\<close> (ac_slow) up to 7,
  \<open>AC_standard\<close> above 7 up to 22, \<open>DC_moyenne\<close> (dc_medium) above 22 up to 49,
  \<open>DC_rapide\<close> (dc_fast) above 49 up to 149, \<open>DC_ultra\<close> above 149, and \<open>inconnu\<close>
  (unknown) for an absent power; and the category of every cleaned record is the one of
  its cleaned power.
\<close>

theorem bin_categories:
  "bin None = ''inconnu'' \<and>
   (x \<le> 7 \<longrightarrow> bin (Some x) = ''AC_lente'') \<and>
   (7 < x \<and> x \<le> 22 \<longrightarrow> bin (Some x) = ''AC_standard'') \<and>
   (22 < x \<and> x \<le> 49 \<longrightarrow> bin (Some x) = ''DC_moyenne'') \<and>
   (49 < x \<and> x \<le> 149 \<longrightarrow> bin (Some x) = ''DC_rapide'') \<and>
   (149 < x \<longrightarrow> bin (Some x) = ''DC_ultra'') \<and>
   (cell_at (clean_irve parse sn df) i ''categorie_puissance'' = Inr v \<longrightarrow>
      (\<exists>p. cell_at (clean_irve parse sn df) i ''puissance_kw'' = Inr (float_cell p) \<and>
           v = Str (bin p)))"
  using categorie_from_power [of parse sn df i v] by (simp add: bin_def)

theorem bin_categories_witness:
  "bin (Some 7) = ''AC_lente'' \<and> bin (Some 22) = ''AC_standard'' \<and>
   bin (Some 49) = ''DC_moyenne'' \<and> bin (Some 149) = ''DC_rapide'' \<and>
   bin (Some 150) = ''DC_ultra'' \<and>
   cell_at (clean_irve parse_sample str_num_sample raw_power_table) 1 ''categorie_puissance'' =
     Inr (Str ''DC_ultra'') \<and>
   (\<exists>p. cell_at (clean_irve parse_sample str_num_sample raw_power_table) 1 ''puissance_kw'' =
          Inr (float_cell p) \<and> Str ''DC_ultra'' = Str (bin p))"
proof -
  have "cell_at (clean_irve parse_sample str_num_sample raw_power_table) 1 ''categorie_puissance'' =
     Inr (Str ''DC_ultra'')"
    using cell_at_clean_irve_power(2) [of 1 raw_power_table parse_sample str_num_sample]
    by (simp add: raw_power_table_def row_of_def to_numeric_def clip_lower_def bin_def)
  then show ?thesis
    using bin_categories [of 7] bin_categories [of 22] bin_categories [of 49]
      bin_categories [of 149]
      bin_categories [of 150 parse_sample str_num_sample raw_power_table 1 "Str ''DC_ultra''"]
    by simp
qed

section \<open>The two postal-code extractors\<close>

lemma cp_here_token: "cp_here p s = token_after p s 0"
proof (cases "5 \<le> length s")
  case False
  then show ?thesis by (simp add: cp_here_def token_after_def)
next
  case True
  have "(case drop 5 s of [] \<Rightarrow> True | c # _ \<Rightarrow> \<not> is_word c) =
        (if 5 = length s then True else \<not> is_word (s ! 5))"
  proof (cases "5 = length s")
    case True
    then show ?thesis by simp
  next
    case False
    with \<open>5 \<le> length s\<close> have "5 < length s" by simp
    then have "drop 5 s = s ! 5 # drop (Suc 5) s" by (rule Cons_nth_drop_Suc [symmetric])
    with False show ?thesis by simp
  qed
  then show ?thesis using True by (auto simp add: cp_here_def token_after_def)
qed

lemma token_after_Cons: "token_after p (c # cs) (Suc k) = token_after (is_word c) cs k"
  by (cases k) (simp_all add: token_after_def)

lemma cp_scan_None: "cp_scan p s = None \<Longrightarrow> \<not> token_after p s k"
proof (induction s arbitrary: p k)
  case Nil
  then show ?case by (simp add: token_after_def)
next
  case (Cons c cs)
  from Cons.prems have nohere: "\<not> cp_here p (c # cs)" and rest: "cp_scan (is_word c) cs = None"
    by (auto split: if_splits)
  show ?case
  proof (cases k)
    case 0
    with nohere show ?thesis by (simp add: cp_here_token)
  next
    case (Suc k')
    with Cons.IH [OF rest] show ?thesis by (simp add: token_after_Cons)
  qed
qed

lemma cp_scan_Some:
  "cp_scan p s = Some t \<Longrightarrow>
   \<exists>k. token_after p s k \<and> (\<forall>j<k. \<not> token_after p s j) \<and> t = take 5 (drop k s)"
proof (induction s arbitrary: p)
  case Nil
  then show ?case by simp
next
  case (Cons c cs)
  show ?case
  proof (cases "cp_here p (c # cs)")
    case True
    with Cons.prems have "t = take 5 (drop 0 (c # cs))" by auto
    moreover from True have "token_after p (c # cs) 0" by (simp add: cp_here_token)
    ultimately show ?thesis by blast
  next
    case False
    with Cons.prems have "cp_scan (is_word c) cs = Some t" by simp
    from Cons.IH [OF this] obtain k where k: "token_after (is_word c) cs k"
      "\<forall>j<k. \<not> token_after (is_word c) cs j" "t = take 5 (drop k cs)" by blast
    have "token_after p (c # cs) (Suc k)" using k(1) by (simp add: token_after_Cons)
    moreover have "\<forall>j<Suc k. \<not> token_after p (c # cs) j"
    proof (intro allI impI)
      fix j assume "j < Suc k"
      then show "\<not> token_after p (c # cs) j"
        using False k(2) by (cases j) (simp_all add: cp_here_token token_after_Cons)
    qed
    moreover have "t = take 5 (drop (Suc k) (c # cs))" using k(3) by simp
    ultimately show ?thesis by blast
  qed
qed

lemma re_search_cp_first_token:
  "re_search_cp s = Some t \<longleftrightarrow>
   (\<exists>i. token_at s i \<and> (\<forall>j<i. \<not> token_at s j) \<and> t = take 5 (drop i s))"
proof
  assume "re_search_cp s = Some t"
  then show "\<exists>i. token_at s i \<and> (\<forall>j<i. \<not> token_at s j) \<and> t = take 5 (drop i s)"
    unfolding re_search_cp_def token_at_def by (rule cp_scan_Some)
next
  assume "\<exists>i. token_at s i \<and> (\<forall>j<i. \<not> token_at s j) \<and> t = take 5 (drop i s)"
  then obtain i where i: "token_at s i" "\<forall>j<i. \<not> token_at s j" "t = take 5 (drop i s)"
    by blast
  from i(1) have "re_search_cp s \<noteq> None"
    unfolding re_search_cp_def token_at_def using cp_scan_None by blast
  then obtain t' where t': "re_search_cp s = Some t'" by blast
  then obtain k where k: "token_at s k" "\<forall>j<k. \<not> token_at s j" "t' = take 5 (drop k s)"
    unfolding re_search_cp_def token_at_def using cp_scan_Some by blast
  have "i = k"
    using i(1,2) k(1,2) by (meson linorder_neqE_nat)
  with i(3) k(3) t' show "re_search_cp s = Some t" by simp
qed

lemma re_search_cp_no_token: "re_search_cp s = None \<longleftrightarrow> (\<forall>i. \<not> token_at s i)"
proof
  assume "re_search_cp s = None"
  then show "\<forall>i. \<not> token_at s i"
    unfolding re_search_cp_def token_at_def using cp_scan_None by blast
next
  assume no: "\<forall>i. \<not> token_at s i"
  show "re_search_cp s = None"
  proof (cases "re_search_cp s")
    case None
    then show ?thesis .
  next
    case (Some t)
    then have "\<exists>i. token_at s i"
      using re_search_cp_first_token [of s t] by blast
    with no show ?thesis by blast
  qed
qed



end
